theory Spec2Isabelle
  imports Main "HOL-Library.Word"
begin

section \<open>Python strings\<close>

text \<open>
  A Python \<open>str\<close> is modelled as a \<open>string\<close>: a list of characters. The operations
  below are the ones the three scripts use: \<open>in\<close>, \<open>startswith\<close>, \<open>endswith\<close>,
  \<open>replace\<close>, \<open>strip\<close>, \<open>lstrip\<close>, \<open>lower\<close>.
\<close>

definition startswith :: "string \<Rightarrow> string \<Rightarrow> bool" where
  "startswith s p = (take (length p) s = p)"

definition endswith :: "string \<Rightarrow> string \<Rightarrow> bool" where
  "endswith s p = (length p \<le> length s \<and> drop (length s - length p) s = p)"

text \<open>\<open>sub in s\<close>: \<open>sub\<close> occurs as a contiguous slice of \<open>s\<close>.\<close>

fun str_in :: "string \<Rightarrow> string \<Rightarrow> bool" where
  "str_in sub [] = (sub = [])"
| "str_in sub (c # cs) = (startswith (c # cs) sub \<or> str_in sub cs)"

text \<open>
  \<open>s.replace(old, new)\<close>: every occurrence of \<open>old\<close>, found from the left and without
  overlaps, becomes \<open>new\<close>. With an empty \<open>old\<close> Python puts \<open>new\<close> before every
  character and at the end.
\<close>

function str_replace :: "string \<Rightarrow> string \<Rightarrow> string \<Rightarrow> string" where
  "str_replace old new s =
     (if old = [] then concat (map (\<lambda>c. new @ [c]) s) @ new
      else if s = [] then []
      else if startswith s old then new @ str_replace old new (drop (length old) s)
      else hd s # str_replace old new (tl s))"
  by pat_completeness auto
termination
  by (relation "measure (\<lambda>(old, new, s). length s)") auto

declare str_replace.simps [simp del]

section \<open>Slugs\<close>

text \<open>
  Characters are read as code points below 256. \<open>str.strip()\<close> removes the white
  space of that range from both ends, \<open>str.lower()\<close> maps the upper-case letters of
  that range to their lower-case ones.
\<close>

definition is_space :: "char \<Rightarrow> bool" where
  "is_space c = (let n = (of_char c :: nat) in
     (9 \<le> n \<and> n \<le> 13) \<or> (28 \<le> n \<and> n \<le> 32) \<or> n = 133 \<or> n = 160)"

definition strip_chars :: "(char \<Rightarrow> bool) \<Rightarrow> string \<Rightarrow> string" where
  "strip_chars P s = rev (dropWhile P (rev (dropWhile P s)))"


definition lower_char :: "char \<Rightarrow> char" where
  "lower_char c = (let n = (of_char c :: nat) in
     if (65 \<le> n \<and> n \<le> 90) \<or> (192 \<le> n \<and> n \<le> 222 \<and> n \<noteq> 215)
     then char_of (n + 32) else c)"

definition is_az09 :: "char \<Rightarrow> bool" where
  "is_az09 c = (let n = (of_char c :: nat) in
     (97 \<le> n \<and> n \<le> 122) \<or> (48 \<le> n \<and> n \<le> 57))"

text \<open>
  \<open>re.sub(r"[...]+", "-", s)\<close>: each maximal run of characters of the class \<open>P\<close>
  becomes one hyphen; \<open>in_run\<close> says that the character before was of the class.
\<close>

fun sub_runs :: "(char \<Rightarrow> bool) \<Rightarrow> bool \<Rightarrow> string \<Rightarrow> string" where
  "sub_runs P in_run [] = []"
| "sub_runs P in_run (c # cs) =
     (if P c then (if in_run then sub_runs P True cs else CHR ''-'' # sub_runs P True cs)
      else c # sub_runs P False cs)"

definition slugify :: "string \<Rightarrow> string" where
  "slugify text =
     (let s = map lower_char (strip_chars is_space text);
          s = sub_runs (\<lambda>c. \<not> is_az09 c) False s;
          s = sub_runs (\<lambda>c. c = CHR ''-'') False s
      in strip_chars (\<lambda>c. c = CHR ''-'') s)"

text \<open>The decimal numeral of an f-string such as \<open>f'paper-{i}'\<close>.\<close>

fun str_of_nat :: "nat \<Rightarrow> string" where
  "str_of_nat n =
     (if n < 10 then [char_of (48 + n)]
      else str_of_nat (n div 10) @ [char_of (48 + n mod 10)])"

declare str_of_nat.simps [simp del]

section \<open>Paths and files\<close>

text \<open>
  A \<open>pathlib.Path\<close> is the list of its components. \<open>ROOT\<close>, the directory above the
  scripts, is a parameter. The image files are the only files kept as state: a map from
  paths to what was written there.
\<close>

type_synonym path = "string list"

type_synonym byte = "8 word"

record img_dict =
  img_image :: "byte list option"
  img_ext :: "string option"

text \<open>
  A page: the image dictionaries that \<open>doc.extract_image\<close> gives for the entries of
  \<open>page.get_images(full=True)\<close>, in that order, and the rest of the page, which only
  \<open>get_pixmap\<close> looks at.
\<close>

record page =
  page_images :: "img_dict list"
  page_content :: string

datatype file_content = Image_bytes "byte list" | Pixmap_png page nat

type_synonym files = "path \<rightharpoonup> file_content"

datatype py_exn =
    TypeError | ValueError | AttributeError | KeyError | FileDataError
  | FileNotFoundError | YAMLError | UnicodeDecodeError | OSError

definition IMAGES_DIR :: "path \<Rightarrow> path" where
  "IMAGES_DIR root = root @ [''images'', ''publications'']"

fun split_on :: "char \<Rightarrow> string \<Rightarrow> string list" where
  "split_on c [] = [[]]"
| "split_on c (x # xs) =
     (if x = c then [] # split_on c xs
      else (case split_on c xs of [] \<Rightarrow> [[x]] | w # ws \<Rightarrow> (x # w) # ws))"

text \<open>
  \<open>p / s\<close> for a string \<open>s\<close> that does not start with a slash (a slug, or a \<open>src\<close>
  after \<open>lstrip('/')\<close>): the components of \<open>s\<close> are appended, empty ones and \<open>.\<close>
  dropped.
\<close>

definition path_div :: "path \<Rightarrow> string \<Rightarrow> path" where
  "path_div p s = p @ filter (\<lambda>w. w \<noteq> [] \<and> w \<noteq> ''.'') (split_on (CHR ''/'') s)"

definition path_name :: "path \<Rightarrow> string" where
  "path_name p = (if p = [] then [] else last p)"

definition rfind :: "char \<Rightarrow> string \<Rightarrow> nat option" where
  "rfind c s = (if c \<in> set s
     then Some (length s - 1 - length (takeWhile (\<lambda>x. x \<noteq> c) (rev s))) else None)"

definition path_suffix :: "path \<Rightarrow> string" where
  "path_suffix p = (let name = path_name p in
     case rfind (CHR ''.'') name of
       None \<Rightarrow> []
     | Some i \<Rightarrow> if 0 < i \<and> i + 1 < length name then drop i name else [])"

text \<open>\<open>Path.with_suffix\<close>, with its two \<open>ValueError\<close>s.\<close>

definition with_suffix :: "path \<Rightarrow> string \<Rightarrow> py_exn + path" where
  "with_suffix p suf =
     (if CHR ''/'' \<in> set suf then Inl ValueError
      else if (suf \<noteq> [] \<and> \<not> startswith suf ''.'') \<or> suf = ''.'' then Inl ValueError
      else let name = path_name p in
        if name = [] then Inl ValueError
        else let old_suffix = path_suffix p in
          Inr (butlast p @ [take (length name - length old_suffix) name @ suf]))"

section \<open>Figure extraction\<close>

text \<open>
  What \<open>download_file\<close> left in \<open>paper.pdf\<close>: something \<open>fitz.open\<close> rejects, or a
  document, the list of its pages.
\<close>

datatype pdf_file = Not_a_document | Document "page list"

text \<open>
  The result of an extraction is what the call returned or raised, and the image files
  after it.
\<close>

type_synonym extraction = "(py_exn + bool) \<times> files"

subsection \<open>\<open>extract_fig1_yaml.py\<close> and \<open>extract_remaining_figs.py\<close>\<close>

text \<open>
  The inner loop over the images of one page. \<open>None\<close>: no image of the page was kept, the
  outer loop goes on.
\<close>

fun scan_images :: "img_dict list \<Rightarrow> path \<Rightarrow> files \<Rightarrow> extraction option" where
  "scan_images [] out_path fs = None"
| "scan_images (d # ds) out_path fs =
     (case img_image d of
        None \<Rightarrow> Some (Inl TypeError, fs)
      | Some img_bytes \<Rightarrow>
          if length img_bytes < 10000 then scan_images ds out_path fs
          else let ext = (case img_ext d of None \<Rightarrow> ''png'' | Some e \<Rightarrow> e) in
            (case with_suffix out_path (''.'' @ ext) of
               Inl e \<Rightarrow> Some (Inl e, fs)
             | Inr final_path \<Rightarrow> Some (Inr True, fs(final_path \<mapsto> Image_bytes img_bytes))))"

fun scan_pages :: "page list \<Rightarrow> path \<Rightarrow> files \<Rightarrow> extraction option" where
  "scan_pages [] out_path fs = None"
| "scan_pages (pg # pgs) out_path fs =
     (case scan_images (page_images pg) out_path fs of
        Some r \<Rightarrow> Some r
      | None \<Rightarrow> scan_pages pgs out_path fs)"

definition render_first_page :: "page list \<Rightarrow> path \<Rightarrow> files \<Rightarrow> extraction" where
  "render_first_page doc out_path fs =
     (if length doc > 0 then
        (case with_suffix out_path ''.png'' of
           Inl e \<Rightarrow> (Inl e, fs)
         | Inr png_path \<Rightarrow> (Inr True, fs(png_path \<mapsto> Pixmap_png (doc ! 0) 150)))
      else (Inr False, fs))"

definition extract_first_image_from_pdf :: "pdf_file \<Rightarrow> path \<Rightarrow> files \<Rightarrow> extraction" where
  "extract_first_image_from_pdf pdf out_path fs =
     (case pdf of
        Not_a_document \<Rightarrow> (Inl FileDataError, fs)
      | Document doc \<Rightarrow>
          (case scan_pages (take (min 3 (length doc)) doc) out_path fs of
             Some r \<Rightarrow> r
           | None \<Rightarrow> render_first_page doc out_path fs))"

subsection \<open>\<open>extract_fig1.py\<close>\<close>

text \<open>
  The older extractor takes the first image of the first page that has one, whatever its
  size, from any page. \<open>f.write(None)\<close> raises after \<open>open\<close> has created the file.
\<close>

fun scan_pages_html :: "page list \<Rightarrow> path \<Rightarrow> files \<Rightarrow> extraction option" where
  "scan_pages_html [] out_path fs = None"
| "scan_pages_html (pg # pgs) out_path fs =
     (case page_images pg of
        [] \<Rightarrow> scan_pages_html pgs out_path fs
      | d # ds \<Rightarrow>
          let ext = (case img_ext d of None \<Rightarrow> ''png'' | Some e \<Rightarrow> e) in
          (case with_suffix out_path (''.'' @ ext) of
             Inl e \<Rightarrow> Some (Inl e, fs)
           | Inr final_path \<Rightarrow>
               (case img_image d of
                  None \<Rightarrow> Some (Inl TypeError, fs(final_path \<mapsto> Image_bytes []))
                | Some img_bytes \<Rightarrow>
                    Some (Inr True, fs(final_path \<mapsto> Image_bytes img_bytes)))))"

definition extract_first_image_from_pdf_html :: "pdf_file \<Rightarrow> path \<Rightarrow> files \<Rightarrow> extraction" where
  "extract_first_image_from_pdf_html pdf out_path fs =
     (case pdf of
        Not_a_document \<Rightarrow> (Inl FileDataError, fs)
      | Document doc \<Rightarrow>
          (case scan_pages_html doc out_path fs of
             Some r \<Rightarrow> r
           | None \<Rightarrow> render_first_page doc out_path fs))"

section \<open>YAML values and the Python operations on them\<close>

text \<open>
  What \<open>yaml.safe_load\<close> gives: \<open>None\<close>, booleans, integers, strings, lists, and
  dictionaries with string keys, kept in insertion order. A key may be absent from a
  dictionary or be there with any value, \<open>None\<close> included. Floats, dates and binary
  scalars are left out.
\<close>

datatype yaml =
    YNull
  | YBool bool
  | YInt int
  | YStr string
  | YList "yaml list"
  | YDict "(string \<times> yaml) list"

text \<open>\<open>bool(v)\<close>, as \<open>if v\<close> and \<open>if not v\<close> use it.\<close>

fun truthy :: "yaml \<Rightarrow> bool" where
  "truthy YNull = False"
| "truthy (YBool b) = b"
| "truthy (YInt n) = (n \<noteq> 0)"
| "truthy (YStr s) = (s \<noteq> [])"
| "truthy (YList vs) = (vs \<noteq> [])"
| "truthy (YDict kvs) = (kvs \<noteq> [])"

text \<open>\<open>v.get(key, default)\<close>: only a dictionary has the method.\<close>

definition get_or :: "(string \<times> yaml) list \<Rightarrow> string \<Rightarrow> yaml \<Rightarrow> yaml" where
  "get_or kvs key dflt = (case map_of kvs key of None \<Rightarrow> dflt | Some v \<Rightarrow> v)"

fun dict_get :: "yaml \<Rightarrow> string \<Rightarrow> yaml \<Rightarrow> py_exn + yaml" where
  "dict_get (YDict kvs) key dflt = Inr (get_or kvs key dflt)"
| "dict_get v key dflt = Inl AttributeError"

text \<open>\<open>s in v\<close> for a string \<open>s\<close>.\<close>

fun py_in :: "string \<Rightarrow> yaml \<Rightarrow> py_exn + bool" where
  "py_in s (YStr t) = Inr (str_in s t)"
| "py_in s (YList vs) = Inr (YStr s \<in> set vs)"
| "py_in s (YDict kvs) = Inr (s \<in> set (map fst kvs))"
| "py_in s v = Inl TypeError"

text \<open>
  \<open>for x in v\<close>: the elements of a list, the characters of a string, the keys of a
  dictionary.
\<close>

fun py_iter :: "yaml \<Rightarrow> py_exn + yaml list" where
  "py_iter (YList vs) = Inr vs"
| "py_iter (YStr s) = Inr (map (\<lambda>c. YStr [c]) s)"
| "py_iter (YDict kvs) = Inr (map (\<lambda>kv. YStr (fst kv)) kvs)"
| "py_iter v = Inl TypeError"

fun py_len :: "yaml \<Rightarrow> py_exn + nat" where
  "py_len (YList vs) = Inr (length vs)"
| "py_len (YStr s) = Inr (length s)"
| "py_len (YDict kvs) = Inr (length kvs)"
| "py_len v = Inl TypeError"

text \<open>\<open>v[key]\<close> and \<open>v[key] = x\<close> for a string \<open>key\<close>.\<close>

fun py_getitem :: "yaml \<Rightarrow> string \<Rightarrow> py_exn + yaml" where
  "py_getitem (YDict kvs) key =
     (case map_of kvs key of None \<Rightarrow> Inl KeyError | Some v \<Rightarrow> Inr v)"
| "py_getitem v key = Inl TypeError"

fun dict_update :: "string \<Rightarrow> yaml \<Rightarrow> (string \<times> yaml) list \<Rightarrow> (string \<times> yaml) list" where
  "dict_update key x [] = [(key, x)]"
| "dict_update key x (kv # kvs) =
     (if fst kv = key then (key, x) # kvs else kv # dict_update key x kvs)"

fun py_setitem :: "yaml \<Rightarrow> string \<Rightarrow> yaml \<Rightarrow> py_exn + yaml" where
  "py_setitem (YDict kvs) key x = Inr (YDict (dict_update key x kvs))"
| "py_setitem v key x = Inl TypeError"

section \<open>Link resolver of \<open>extract_fig1_yaml.py\<close>\<close>

text \<open>
  The loop of \<open>find_pdf_url\<close> over the links. The first link, in list order, that is an
  arXiv link whose URL holds \<open>arxiv.org\<close> or a link of type \<open>pdf\<close> decides the result.
  A link that is not a dictionary has no \<open>get\<close>; \<open>'arxiv.org' in url\<close> is only
  evaluated for a link of type \<open>arxiv\<close>; only a string has \<open>replace\<close>. The result
  \<open>YNull\<close> is Python's \<open>None\<close>.
\<close>

fun find_pdf_url_loop :: "yaml list \<Rightarrow> py_exn + yaml" where
  "find_pdf_url_loop [] = Inr YNull"
| "find_pdf_url_loop (link # rest) =
     (case dict_get link ''type'' (YStr []) of
        Inl e \<Rightarrow> Inl e
      | Inr link_type \<Rightarrow>
     (case dict_get link ''url'' (YStr []) of
        Inl e \<Rightarrow> Inl e
      | Inr url \<Rightarrow>
     (case (if link_type = YStr ''arxiv'' then py_in ''arxiv.org'' url else Inr False) of
        Inl e \<Rightarrow> Inl e
      | Inr True \<Rightarrow>
          (case py_in ''/abs/'' url of
             Inl e \<Rightarrow> Inl e
           | Inr True \<Rightarrow>
               (case url of
                  YStr u \<Rightarrow> Inr (YStr (str_replace ''/abs/'' ''/pdf/'' u @ ''.pdf''))
                | _ \<Rightarrow> Inl AttributeError)
           | Inr False \<Rightarrow> Inr url)
      | Inr False \<Rightarrow>
          if link_type = YStr ''pdf'' then Inr url
          else find_pdf_url_loop rest)))"

definition find_pdf_url :: "yaml \<Rightarrow> py_exn + yaml" where
  "find_pdf_url paper =
     (case py_in ''links'' paper of
        Inl e \<Rightarrow> Inl e
      | Inr False \<Rightarrow> Inr YNull
      | Inr True \<Rightarrow>
          (case py_getitem paper ''links'' of
             Inl e \<Rightarrow> Inl e
           | Inr links \<Rightarrow>
               (case py_iter links of
                  Inl e \<Rightarrow> Inl e
                | Inr ls \<Rightarrow> find_pdf_url_loop ls)))"

section \<open>Link resolver of \<open>extract_fig1.py\<close>\<close>


definition normalize_pdf_url :: "string \<Rightarrow> string" where
  "normalize_pdf_url href =
     (if startswith href ''http'' then
        (if str_in ''arxiv.org/abs'' href then
           (if \<not> endswith href ''.pdf''
            then str_replace ''arxiv.org/abs'' ''arxiv.org/pdf'' href @ ''.pdf''
            else href)
         else href)
      else ''https://xiaocw11.github.io'' @ href)"

section \<open>The batch jobs\<close>

text \<open>
  The network is a function from a URL to what \<open>download_file\<close> stored, or \<open>None\<close>
  where it raised (a transport error, a status that \<open>raise_for_status\<close> rejects).
  A URL that is not a string is turned into one by \<open>requests\<close>, has no scheme then, and
  the call raises.
\<close>

type_synonym net = "string \<Rightarrow> pdf_file option"

definition download_file :: "net \<Rightarrow> yaml \<Rightarrow> pdf_file option" where
  "download_file net url = (case url of YStr u \<Rightarrow> net u | _ \<Rightarrow> None)"

text \<open>
  The world of the two YAML scripts: \<open>publications.yml\<close>, which may be absent, may hold
  what cannot be decoded or parsed, or holds a YAML value; whether it can be opened for
  writing; how often it has been written; and the image files.
  \<open>yaml.safe_load\<close> of what \<open>yaml.dump\<close> wrote is taken to give the value back.
\<close>

datatype yaml_source = File_absent | File_unparsable | File_parsed yaml

record world =
  yaml_file :: yaml_source
  yaml_writable :: bool
  yaml_writes :: nat
  image_files :: files

text \<open>
  How a run ends: \<open>main\<close> returns, \<open>sys.exit\<close> is called, or an exception leaves
  \<open>main\<close>. The interpreter's exit status is 1 for an exception that nothing catches.
\<close>

datatype outcome = Returned | Sys_exit nat | Uncaught py_exn


text \<open>
  The loop \<open>for ext in ['.png', '.jpg', '.jpeg']\<close>: the first of the three files that
  exists.
\<close>

fun first_existing :: "path \<Rightarrow> string list \<Rightarrow> files \<Rightarrow> py_exn + path option" where
  "first_existing target_path [] fs = Inr None"
| "first_existing target_path (ext # exts) fs =
     (case with_suffix target_path ext of
        Inl e \<Rightarrow> Inl e
      | Inr img_file \<Rightarrow>
          if fs img_file \<noteq> None then Inr (Some img_file)
          else first_existing target_path exts fs)"

text \<open>
  The second \<open>try\<close> block of the two YAML scripts, after the call of the extractor: the
  record, the \<open>updated\<close> flag and the image files after it. Whatever is raised in the
  block is caught there.
\<close>

definition record_figure ::
    "yaml \<Rightarrow> path \<Rightarrow> bool \<Rightarrow> extraction \<Rightarrow> yaml \<times> bool \<times> files" where
  "record_figure pub target_path updated r =
     (case r of
        (Inl e, fs) \<Rightarrow> (pub, updated, fs)
      | (Inr success, fs) \<Rightarrow>
          if success then
            (case first_existing target_path [''.png'', ''.jpg'', ''.jpeg''] fs of
               Inr (Some img_file) \<Rightarrow>
                 (case py_setitem pub ''picture''
                         (YStr (''/images/publications/'' @ path_name img_file)) of
                    Inl e \<Rightarrow> (pub, updated, fs)
                  | Inr pub' \<Rightarrow> (pub', True, fs))
             | Inr None \<Rightarrow> (pub, updated, fs)
             | Inl e \<Rightarrow> (pub, updated, fs))
          else (pub, updated, fs))"

subsection \<open>\<open>extract_fig1_yaml.py\<close>\<close>

text \<open>
  The body of the loop of \<open>main\<close> for one record. \<open>Inl\<close>: an exception that no
  \<open>try\<close> block of the body catches, raised by \<open>paper.get\<close>, by \<open>find_pdf_url\<close> or
  by \<open>slugify\<close>, all of them before the download.
\<close>

definition main_yaml_step ::
    "net \<Rightarrow> path \<Rightarrow> nat \<Rightarrow> yaml \<Rightarrow> bool \<times> files \<Rightarrow> py_exn + (yaml \<times> bool \<times> files)" where
  "main_yaml_step net root i paper st =
     (let updated = fst st; fs = snd st in
      case dict_get paper ''year'' YNull of
        Inl e \<Rightarrow> Inl e
      | Inr year \<Rightarrow>
      (case dict_get paper ''title'' (YStr (''paper-'' @ str_of_nat i)) of
        Inl e \<Rightarrow> Inl e
      | Inr ttl \<Rightarrow>
      if year \<noteq> YInt 2025 then Inr (paper, updated, fs)
      else
      (case dict_get paper ''picture'' YNull of
        Inl e \<Rightarrow> Inl e
      | Inr pic \<Rightarrow>
      if truthy pic then Inr (paper, updated, fs)
      else
      (case find_pdf_url paper of
        Inl e \<Rightarrow> Inl e
      | Inr pdf_url \<Rightarrow>
      if \<not> truthy pdf_url then Inr (paper, updated, fs)
      else
      (case ttl of
        YStr t \<Rightarrow>
          let target_path = path_div (IMAGES_DIR root) (slugify t) in
          (case download_file net pdf_url of
             None \<Rightarrow> Inr (paper, updated, fs)
           | Some pdf \<Rightarrow>
               Inr (record_figure paper target_path updated
                      (extract_first_image_from_pdf pdf target_path fs)))
      | _ \<Rightarrow> Inl AttributeError)))))"

text \<open>
  The loop. When the body raises, the run is over; the image files are those written for
  the records before.
\<close>

fun main_yaml_loop ::
    "net \<Rightarrow> path \<Rightarrow> nat \<Rightarrow> yaml list \<Rightarrow> bool \<times> files
       \<Rightarrow> (py_exn \<times> files) + (yaml list \<times> bool \<times> files)" where
  "main_yaml_loop net root i [] st = Inr ([], st)"
| "main_yaml_loop net root i (paper # papers) st =
     (case main_yaml_step net root i paper st of
        Inl e \<Rightarrow> Inl (e, snd st)
      | Inr (paper', st') \<Rightarrow>
          (case main_yaml_loop net root (Suc i) papers st' of
             Inl x \<Rightarrow> Inl x
           | Inr (papers', st'') \<Rightarrow> Inr (paper' # papers', st'')))"

text \<open>
  \<open>main\<close>. The records are changed in place, so what \<open>yaml.dump\<close> writes is the list
  of the records after the loop; the loop only ends with \<open>updated\<close> set when
  \<open>publications\<close> is a list.
\<close>

definition main_yaml :: "net \<Rightarrow> path \<Rightarrow> world \<Rightarrow> outcome \<times> world" where
  "main_yaml net root w =
     (case yaml_file w of
        File_absent \<Rightarrow> (Sys_exit 1, w)
      | File_unparsable \<Rightarrow> (Uncaught YAMLError, w)
      | File_parsed publications \<Rightarrow>
          if \<not> truthy publications then (Sys_exit 1, w)
          else
            (case py_len publications of
               Inl e \<Rightarrow> (Uncaught e, w)
             | Inr n \<Rightarrow>
            (case py_iter publications of
               Inl e \<Rightarrow> (Uncaught e, w)
             | Inr papers \<Rightarrow>
            (case main_yaml_loop net root 0 papers (False, image_files w) of
               Inl (e, fs) \<Rightarrow> (Uncaught e, w\<lparr>image_files := fs\<rparr>)
             | Inr (papers', updated, fs) \<Rightarrow>
                 if updated then
                   (if yaml_writable w
                    then (Returned,
                          w\<lparr>yaml_file := File_parsed
                                (case publications of YList vs \<Rightarrow> YList papers'
                                 | v \<Rightarrow> v),
                            yaml_writes := yaml_writes w + 1, image_files := fs\<rparr>)
                    else (Uncaught OSError, w\<lparr>image_files := fs\<rparr>))
                 else (Returned, w\<lparr>image_files := fs\<rparr>)))))"

subsection \<open>\<open>extract_remaining_figs.py\<close>\<close>

definition manual_pdfs :: "(string \<times> string) list" where
  "manual_pdfs =
     [(''DataGen: Unified Synthetic Dataset Generation via Large Language Models'',
       ''https://openreview.net/pdf?id=F5R0lG74Tu''),
      (''Can Watermarks be Used to Detect LLM IP Infringement For Free?'',
       ''https://openreview.net/pdf?id=KRMSH1GxUK''),
      (''PIGuard: Prompt Injection Guardrail via Mitigating Overdefense for Free'',
       ''https://aclanthology.org/2025.acl-long.1468.pdf''),
      (''MetaAgent: Automatically Building Multi-Agent System based on Finite State Machine'',
       ''https://openreview.net/pdf?id=vOxaD3hhPt'')]"

text \<open>
  \<open>title not in manual_pdfs\<close> hashes the title: a list or a dictionary cannot be
  hashed; any other value that is not one of the four strings is not a key.
\<close>

definition main_remaining_step ::
    "net \<Rightarrow> path \<Rightarrow> yaml \<Rightarrow> bool \<times> files \<Rightarrow> py_exn + (yaml \<times> bool \<times> files)" where
  "main_remaining_step net root pub st =
     (let updated = fst st; fs = snd st in
      case dict_get pub ''title'' (YStr []) of
        Inl e \<Rightarrow> Inl e
      | Inr ttl \<Rightarrow>
      (case ttl of
        YList vs \<Rightarrow> Inl TypeError
      | YDict kvs \<Rightarrow> Inl TypeError
      | YStr t \<Rightarrow>
          (case map_of manual_pdfs t of
             None \<Rightarrow> Inr (pub, updated, fs)
           | Some pdf_url \<Rightarrow>
               (case dict_get pub ''picture'' YNull of
                  Inl e \<Rightarrow> Inl e
                | Inr pic \<Rightarrow>
                    if truthy pic then Inr (pub, updated, fs)
                    else let target_path = path_div (IMAGES_DIR root) (slugify t) in
                      (case net pdf_url of
                         None \<Rightarrow> Inr (pub, updated, fs)
                       | Some pdf \<Rightarrow>
                           Inr (record_figure pub target_path updated
                                  (extract_first_image_from_pdf pdf target_path fs)))))
      | _ \<Rightarrow> Inr (pub, updated, fs)))"

fun main_remaining_loop ::
    "net \<Rightarrow> path \<Rightarrow> yaml list \<Rightarrow> bool \<times> files
       \<Rightarrow> (py_exn \<times> files) + (yaml list \<times> bool \<times> files)" where
  "main_remaining_loop net root [] st = Inr ([], st)"
| "main_remaining_loop net root (pub # pubs) st =
     (case main_remaining_step net root pub st of
        Inl e \<Rightarrow> Inl (e, snd st)
      | Inr (pub', st') \<Rightarrow>
          (case main_remaining_loop net root pubs st' of
             Inl x \<Rightarrow> Inl x
           | Inr (pubs', st'') \<Rightarrow> Inr (pub' # pubs', st'')))"

text \<open>This script opens the file without looking for it first.\<close>

definition main_remaining :: "net \<Rightarrow> path \<Rightarrow> world \<Rightarrow> outcome \<times> world" where
  "main_remaining net root w =
     (case yaml_file w of
        File_absent \<Rightarrow> (Uncaught FileNotFoundError, w)
      | File_unparsable \<Rightarrow> (Uncaught YAMLError, w)
      | File_parsed publications \<Rightarrow>
          (case py_iter publications of
             Inl e \<Rightarrow> (Uncaught e, w)
           | Inr pubs \<Rightarrow>
          (case main_remaining_loop net root pubs (False, image_files w) of
             Inl (e, fs) \<Rightarrow> (Uncaught e, w\<lparr>image_files := fs\<rparr>)
           | Inr (pubs', updated, fs) \<Rightarrow>
               if updated then
                 (if yaml_writable w
                  then (Returned,
                        w\<lparr>yaml_file := File_parsed
                              (case publications of YList vs \<Rightarrow> YList pubs'
                               | v \<Rightarrow> v),
                          yaml_writes := yaml_writes w + 1, image_files := fs\<rparr>)
                  else (Uncaught OSError, w\<lparr>image_files := fs\<rparr>))
               else (Returned, w\<lparr>image_files := fs\<rparr>))))"

subsection \<open>\<open>extract_fig1.py\<close>\<close>









section \<open>Records of the expected types\<close>

text \<open>
  The types that the scripts write down for their operations, \<open>slugify(text: str)\<close> and
  \<open>find_pdf_url(paper: dict)\<close>, and the string operations on a link's fields: a record
  is a dictionary whose title, when there, is a string and whose links, when there, are a
  list of dictionaries whose type and URL, when there, are strings.
\<close>

text \<open>
  The value that \<open>paper.get(key)\<close> reads from a record, \<open>None\<close> for a missing key;
  what is not a dictionary has no fields.
\<close>

definition field :: "yaml \<Rightarrow> string \<Rightarrow> yaml" where
  "field paper key = (case paper of YDict kvs \<Rightarrow> get_or kvs key YNull | _ \<Rightarrow> YNull)"




section \<open>Facts about the string operations\<close>

lemma endswith_iff: "endswith s p \<longleftrightarrow> (\<exists>pre. s = pre @ p)"
  unfolding endswith_def
  by (metis append_eq_conv_conj append_take_drop_id diff_add_inverse2 length_append le_add2 length_drop)

lemma startswith_iff: "startswith s p \<longleftrightarrow> (\<exists>rest. s = p @ rest)"
  unfolding startswith_def
  by (metis append_eq_conv_conj append_take_drop_id)

lemma str_replace_length:
  "old \<noteq> [] \<Longrightarrow> length new = length old \<Longrightarrow> length (str_replace old new s) = length s"
proof (induction old new s rule: str_replace.induct)
  case (1 old new s)
  show ?case
  proof (cases "s = []")
    case True then show ?thesis using 1(3) by (simp add: str_replace.simps)
  next
    case False
    show ?thesis
    proof (cases "startswith s old")
      case True
      then have "length old \<le> length s" unfolding startswith_def
        by (metis length_take min.cobounded2 min_def nat_le_linear take_all)
      with 1 True False show ?thesis
        by (subst str_replace.simps) simp
    next
      case F2: False
      with 1 False show ?thesis
        by (subst str_replace.simps) (cases s; simp)
    qed
  qed
qed

lemma str_replace_short:
  "length s < length old \<Longrightarrow> str_replace old new s = s"
proof (induction s)
  case Nil
  then show ?case by (simp add: str_replace.simps)
next
  case (Cons c cs)
  then have "\<not> startswith (c # cs) old"
    by (auto simp: startswith_iff dest!: arg_cong [where f = length])
  with Cons show ?case
    by (subst str_replace.simps) auto
qed

lemma str_replace_abs_keeps_pdf_suffix:
  "endswith (str_replace ''/abs/'' ''/pdf/'' s) ''.pdf'' \<Longrightarrow> endswith s ''.pdf''"
proof (induction "''/abs/''" "''/pdf/''" s rule: str_replace.induct)
  case (1 s)
  show ?case
  proof (cases "s = []")
    case True
    with 1(3) show ?thesis by (simp add: str_replace.simps)
  next
    case False
    show ?thesis
    proof (cases "startswith s ''/abs/''")
      case True
      then obtain rest where s: "s = ''/abs/'' @ rest"
        by (auto simp: startswith_iff)
      then have rest: "rest = drop (length ''/abs/'') s" by simp
      from True False have R: "str_replace ''/abs/'' ''/pdf/'' s
          = ''/pdf/'' @ str_replace ''/abs/'' ''/pdf/'' rest"
        by (subst str_replace.simps) (simp add: rest)
      from 1(3) R obtain pre where
        eq: "''/pdf/'' @ str_replace ''/abs/'' ''/pdf/'' rest = pre @ ''.pdf''"
        by (auto simp: endswith_iff)
      then have "\<exists>us. str_replace ''/abs/'' ''/pdf/'' rest = us @ ''.pdf''"
        by (auto simp: append_eq_append_conv2 append_eq_Cons_conv Cons_eq_append_conv)
      then have "endswith (str_replace ''/abs/'' ''/pdf/'' rest) ''.pdf''"
        by (simp add: endswith_iff)
      with 1(1) False True rest have "endswith rest ''.pdf''" by simp
      with s show ?thesis by (auto simp: endswith_iff)
    next
      case nsw: False
      obtain c t where s: "s = c # t" using False by (cases s) auto
      from nsw False s have R: "str_replace ''/abs/'' ''/pdf/'' s
          = c # str_replace ''/abs/'' ''/pdf/'' t"
        by (subst str_replace.simps) simp
      from 1(3) R obtain pre where
        eq: "c # str_replace ''/abs/'' ''/pdf/'' t = pre @ ''.pdf''"
        by (auto simp: endswith_iff)
      show ?thesis
      proof (cases pre)
        case Nil
        with eq have c: "c = CHR ''.''" and t': "str_replace ''/abs/'' ''/pdf/'' t = ''pdf''"
          by simp_all
        have "length (str_replace ''/abs/'' ''/pdf/'' t) = length t"
          by (rule str_replace_length) simp_all
        with t' have "length t < length ''/abs/''" by simp
        then have "str_replace ''/abs/'' ''/pdf/'' t = t" by (rule str_replace_short)
        with t' c s show ?thesis by (simp add: endswith_def)
      next
        case (Cons a pre')
        with eq have "endswith (str_replace ''/abs/'' ''/pdf/'' t) ''.pdf''"
          by (auto simp: endswith_iff)
        with 1(2) False nsw s have "endswith t ''.pdf''" by simp
        with s show ?thesis by (auto simp: endswith_iff)
      qed
    qed
  qed
qed

lemma str_replace_unchanged:
  "old \<noteq> [] \<Longrightarrow> \<not> str_in old s \<Longrightarrow> str_replace old new s = s"
proof (induction s)
  case Nil
  then show ?case by (simp add: str_replace.simps)
next
  case (Cons c cs)
  then show ?case by (subst str_replace.simps) auto
qed

section \<open>Facts about the extractor\<close>

lemma scan_images_append:
  "scan_images (xs @ ys) out_path fs =
     (case scan_images xs out_path fs of Some r \<Rightarrow> Some r | None \<Rightarrow> scan_images ys out_path fs)"
  by (induction xs) (auto split: option.splits sum.splits)

lemma scan_pages_concat:
  "scan_pages pgs out_path fs = scan_images (concat (map page_images pgs)) out_path fs"
  by (induction pgs) (auto simp: scan_images_append split: option.splits)

lemma scan_images_small:
  "\<forall>d \<in> set xs. \<exists>bs. img_image d = Some bs \<and> length bs < 10000 \<Longrightarrow>
   scan_images xs out_path fs = None"
  by (induction xs) auto

lemma take_min_length: "take (min n (length xs)) xs = take n xs"
  by (simp add: min_def)

lemma scan_images_first_large:
  assumes "\<forall>s \<in> set small. \<exists>bs. img_image s = Some bs \<and> length bs < 10000"
    and "img_image d = Some img_bytes" and "10000 \<le> length img_bytes"
    and "with_suffix out_path (''.'' @ (case img_ext d of None \<Rightarrow> ''png'' | Some e \<Rightarrow> e)) = Inr final_path"
  shows "scan_images (small @ d # rest) out_path fs
           = Some (Inr True, fs(final_path \<mapsto> Image_bytes img_bytes))"
  using assms by (simp add: scan_images_append scan_images_small)

lemma with_suffix_simps:
  "with_suffix [''site'', ''images'', ''publications'', ''t''] ''.png''
     = Inr [''site'', ''images'', ''publications'', ''t.png'']"
  "with_suffix [''site'', ''images'', ''publications'', ''t''] ''.jpeg''
     = Inr [''site'', ''images'', ''publications'', ''t.jpeg'']"
  by (simp_all add: with_suffix_def path_name_def path_suffix_def rfind_def startswith_def)

section \<open>Facts about the resolver\<close>

lemma find_pdf_url_loop_skip:
  assumes "\<forall>k \<in> set pre. \<exists>kd. k = YDict kd
             \<and> get_or kd ''type'' (YStr []) \<noteq> YStr ''pdf''
             \<and> (get_or kd ''type'' (YStr []) = YStr ''arxiv''
                  \<longrightarrow> py_in ''arxiv.org'' (get_or kd ''url'' (YStr [])) = Inr False)"
  shows "find_pdf_url_loop (pre @ ls) = find_pdf_url_loop ls"
  using assms by (induction pre) auto

lemma find_pdf_url_links:
  assumes "map_of paper ''links'' = Some (YList ls)"
  shows "find_pdf_url (YDict paper) = find_pdf_url_loop ls"
proof -
  from assms have "''links'' \<in> fst ` set paper"
    by (metis map_of_eq_None_iff option.distinct(1))
  with assms show ?thesis by (simp add: find_pdf_url_def)
qed

section \<open>The link resolver\<close>

text \<open>
  C1, as the code has it. \<open>find_pdf_url\<close> takes the first link, in list order, that is
  of type \<open>pdf\<close> or an arXiv link whose URL holds \<open>arxiv.org\<close>, and returns what
  that link gives: for a \<open>pdf\<close> link its URL, unchanged; for such an arXiv link its
  URL, rewritten to the PDF form when it holds \<open>/abs/\<close>, unchanged when it does not;
  \<open>None\<close> when there is no such link or no list of links. So the URL of a \<open>pdf\<close>
  link is returned unchanged when no link of either kind stands before it, whatever comes
  after it. (An abstract-page URL that ends with \<open>.pdf\<close> already is the matter of C2
  and is left out here.)
\<close>

theorem find_pdf_url_first_match:
  assumes "\<forall>k \<in> set pre. \<exists>kd. k = YDict kd
             \<and> get_or kd ''type'' (YStr []) \<noteq> YStr ''pdf''
             \<and> (get_or kd ''type'' (YStr []) = YStr ''arxiv''
                  \<longrightarrow> py_in ''arxiv.org'' (get_or kd ''url'' (YStr [])) = Inr False)"
  shows "(map_of paper ''links'' = Some (YList (pre @ YDict l # post))
          \<and> get_or l ''type'' (YStr []) = YStr ''pdf''
          \<longrightarrow> find_pdf_url (YDict paper) = Inr (get_or l ''url'' (YStr [])))
       \<and> (map_of paper ''links'' = Some (YList (pre @ YDict l # post))
          \<and> get_or l ''type'' (YStr []) = YStr ''arxiv''
          \<and> get_or l ''url'' (YStr []) = YStr u
          \<and> str_in ''arxiv.org'' u \<and> \<not> str_in ''/abs/'' u
          \<longrightarrow> find_pdf_url (YDict paper) = Inr (YStr u))
       \<and> (map_of paper ''links'' = Some (YList (pre @ YDict l # post))
          \<and> get_or l ''type'' (YStr []) = YStr ''arxiv''
          \<and> get_or l ''url'' (YStr []) = YStr u
          \<and> str_in ''arxiv.org'' u \<and> str_in ''/abs/'' u \<and> \<not> endswith u ''.pdf''
          \<longrightarrow> find_pdf_url (YDict paper)
              = Inr (YStr (str_replace ''/abs/'' ''/pdf/'' u @ ''.pdf'')))
       \<and> (map_of paper ''links'' = Some (YList pre) \<or> map_of paper ''links'' = None
          \<longrightarrow> find_pdf_url (YDict paper) = Inr YNull)"
proof (intro conjI impI)
  assume "map_of paper ''links'' = Some (YList (pre @ YDict l # post))
          \<and> get_or l ''type'' (YStr []) = YStr ''pdf''"
  then show "find_pdf_url (YDict paper) = Inr (get_or l ''url'' (YStr []))"
    by (simp add: find_pdf_url_links find_pdf_url_loop_skip [OF assms])
next
  assume "map_of paper ''links'' = Some (YList (pre @ YDict l # post))
          \<and> get_or l ''type'' (YStr []) = YStr ''arxiv''
          \<and> get_or l ''url'' (YStr []) = YStr u
          \<and> str_in ''arxiv.org'' u \<and> \<not> str_in ''/abs/'' u"
  then show "find_pdf_url (YDict paper) = Inr (YStr u)"
    by (simp add: find_pdf_url_links find_pdf_url_loop_skip [OF assms])
next
  assume "map_of paper ''links'' = Some (YList (pre @ YDict l # post))
          \<and> get_or l ''type'' (YStr []) = YStr ''arxiv''
          \<and> get_or l ''url'' (YStr []) = YStr u
          \<and> str_in ''arxiv.org'' u \<and> str_in ''/abs/'' u \<and> \<not> endswith u ''.pdf''"
  then show "find_pdf_url (YDict paper)
              = Inr (YStr (str_replace ''/abs/'' ''/pdf/'' u @ ''.pdf''))"
    by (simp add: find_pdf_url_links find_pdf_url_loop_skip [OF assms])
next
  assume "map_of paper ''links'' = Some (YList pre) \<or> map_of paper ''links'' = None"
  then show "find_pdf_url (YDict paper) = Inr YNull"
  proof
    assume "map_of paper ''links'' = Some (YList pre)"
    moreover have "find_pdf_url_loop (pre @ []) = find_pdf_url_loop []"
      by (rule find_pdf_url_loop_skip [OF assms])
    ultimately show ?thesis by (simp add: find_pdf_url_links)
  next
    assume "map_of paper ''links'' = None"
    then have "''links'' \<notin> fst ` set paper" by (simp add: map_of_eq_None_iff)
    then show ?thesis by (simp add: find_pdf_url_def)
  qed
qed

theorem find_pdf_url_first_match_witness:
  "find_pdf_url (YDict
      [(''title'', YStr ''T''), (''year'', YInt 2025),
       (''links'', YList
          [YDict [(''type'', YStr ''code''), (''url'', YStr ''https://example.org/code'')],
           YDict [(''type'', YStr ''pdf''), (''url'', YStr ''https://example.org/paper.pdf'')],
           YDict [(''type'', YStr ''arxiv''), (''url'', YStr ''https://arxiv.org/abs/2501.00001'')]])])
   = Inr (YStr ''https://example.org/paper.pdf'')
   \<and> find_pdf_url (YDict
      [(''title'', YStr ''T''), (''year'', YInt 2025),
       (''links'', YList
          [YDict [(''type'', YStr ''code''), (''url'', YStr ''https://example.org/code'')],
           YDict [(''type'', YStr ''arxiv''), (''url'', YStr ''https://arxiv.org/pdf/2501.00001'')],
           YDict [(''type'', YStr ''pdf''), (''url'', YStr ''https://example.org/paper.pdf'')]])])
   = Inr (YStr ''https://arxiv.org/pdf/2501.00001'')
   \<and> find_pdf_url (YDict
      [(''title'', YStr ''T''), (''year'', YInt 2025),
       (''links'', YList
          [YDict [(''type'', YStr ''code''), (''url'', YStr ''https://example.org/code'')],
           YDict [(''type'', YStr ''arxiv''), (''url'', YStr ''https://arxiv.org/abs/2501.00001'')],
           YDict [(''type'', YStr ''pdf''), (''url'', YStr ''https://example.org/paper.pdf'')]])])
   = Inr (YStr ''https://arxiv.org/pdf/2501.00001.pdf'')"
  using find_pdf_url_first_match [where
      pre = "[YDict [(''type'', YStr ''code''), (''url'', YStr ''https://example.org/code'')]]"
      and l = "[(''type'', YStr ''pdf''), (''url'', YStr ''https://example.org/paper.pdf'')]"
      and post = "[YDict [(''type'', YStr ''arxiv''), (''url'', YStr ''https://arxiv.org/abs/2501.00001'')]]"
      and paper = "[(''title'', YStr ''T''), (''year'', YInt 2025),
       (''links'', YList
          [YDict [(''type'', YStr ''code''), (''url'', YStr ''https://example.org/code'')],
           YDict [(''type'', YStr ''pdf''), (''url'', YStr ''https://example.org/paper.pdf'')],
           YDict [(''type'', YStr ''arxiv''), (''url'', YStr ''https://arxiv.org/abs/2501.00001'')]])]",
      THEN conjunct1]
    find_pdf_url_first_match [where
      pre = "[YDict [(''type'', YStr ''code''), (''url'', YStr ''https://example.org/code'')]]"
      and l = "[(''type'', YStr ''arxiv''), (''url'', YStr ''https://arxiv.org/pdf/2501.00001'')]"
      and post = "[YDict [(''type'', YStr ''pdf''), (''url'', YStr ''https://example.org/paper.pdf'')]]"
      and u = "''https://arxiv.org/pdf/2501.00001''"
      and paper = "[(''title'', YStr ''T''), (''year'', YInt 2025),
       (''links'', YList
          [YDict [(''type'', YStr ''code''), (''url'', YStr ''https://example.org/code'')],
           YDict [(''type'', YStr ''arxiv''), (''url'', YStr ''https://arxiv.org/pdf/2501.00001'')],
           YDict [(''type'', YStr ''pdf''), (''url'', YStr ''https://example.org/paper.pdf'')]])]",
      THEN conjunct2, THEN conjunct1]
    find_pdf_url_first_match [where
      pre = "[YDict [(''type'', YStr ''code''), (''url'', YStr ''https://example.org/code'')]]"
      and l = "[(''type'', YStr ''arxiv''), (''url'', YStr ''https://arxiv.org/abs/2501.00001'')]"
      and post = "[YDict [(''type'', YStr ''pdf''), (''url'', YStr ''https://example.org/paper.pdf'')]]"
      and u = "''https://arxiv.org/abs/2501.00001''"
      and paper = "[(''title'', YStr ''T''), (''year'', YInt 2025),
       (''links'', YList
          [YDict [(''type'', YStr ''code''), (''url'', YStr ''https://example.org/code'')],
           YDict [(''type'', YStr ''arxiv''), (''url'', YStr ''https://arxiv.org/abs/2501.00001'')],
           YDict [(''type'', YStr ''pdf''), (''url'', YStr ''https://example.org/paper.pdf'')]])]",
      THEN conjunct2, THEN conjunct2, THEN conjunct1]
  by (simp add: get_or_def startswith_def endswith_def str_replace.simps)

text \<open>
  C1 as stated fails: an arXiv link that stands before the \<open>pdf\<close> link wins, and the
  result is the rewritten arXiv URL.
\<close>

theorem find_pdf_url_pdf_priority_counterexample:
  "find_pdf_url (YDict
      [(''title'', YStr ''T''), (''year'', YInt 2025),
       (''links'', YList
          [YDict [(''type'', YStr ''arxiv''),
                  (''url'', YStr ''https://arxiv.org/abs/2501.00001'')],
           YDict [(''type'', YStr ''pdf''), (''url'', YStr ''https://example.org/paper.pdf'')]])])
   = Inr (YStr ''https://arxiv.org/pdf/2501.00001.pdf'')
   \<and> find_pdf_url (YDict
      [(''title'', YStr ''T''), (''year'', YInt 2025),
       (''links'', YList
          [YDict [(''type'', YStr ''arxiv''),
                  (''url'', YStr ''https://arxiv.org/abs/2501.00001'')],
           YDict [(''type'', YStr ''pdf''), (''url'', YStr ''https://example.org/paper.pdf'')]])])
   \<noteq> Inr (YStr ''https://example.org/paper.pdf'')"
  by (simp add: find_pdf_url_def get_or_def str_replace.simps startswith_def)

text \<open>
  For a record whose only link is an arXiv abstract-page link, the result is the URL with
  \<open>/abs/\<close> replaced by \<open>/pdf/\<close> and \<open>.pdf\<close> at its end; when the URL does not
  end with \<open>.pdf\<close> already, the result ends with \<open>.pdf\<close> once, not twice.
\<close>

lemma find_pdf_url_arxiv_abs_once:
  assumes "map_of paper ''links'' = Some (YList [YDict l])"
    and "get_or l ''type'' (YStr []) = YStr ''arxiv''"
    and "get_or l ''url'' (YStr []) = YStr u"
    and "str_in ''arxiv.org'' u" and "str_in ''/abs/'' u"
  shows "find_pdf_url (YDict paper) = Inr (YStr (str_replace ''/abs/'' ''/pdf/'' u @ ''.pdf''))
    \<and> (\<not> endswith u ''.pdf'' \<longrightarrow>
         \<not> endswith (str_replace ''/abs/'' ''/pdf/'' u @ ''.pdf'') ''.pdf.pdf'')"
proof
  show "find_pdf_url (YDict paper) = Inr (YStr (str_replace ''/abs/'' ''/pdf/'' u @ ''.pdf''))"
    using assms by (simp add: find_pdf_url_links)
next
  let ?r = "str_replace ''/abs/'' ''/pdf/'' u"
  show "\<not> endswith u ''.pdf'' \<longrightarrow> \<not> endswith (?r @ ''.pdf'') ''.pdf.pdf''"
  proof (intro impI notI)
    assume n: "\<not> endswith u ''.pdf''" and e: "endswith (?r @ ''.pdf'') ''.pdf.pdf''"
    from e obtain pre where "?r @ ''.pdf'' = pre @ ''.pdf.pdf''"
      by (auto simp: endswith_iff)
    then have "?r @ ''.pdf'' = (pre @ ''.pdf'') @ ''.pdf''" by simp
    then have "?r = pre @ ''.pdf''" by (simp only: append_same_eq)
    then have "endswith ?r ''.pdf''" by (auto simp: endswith_iff)
    then have "endswith u ''.pdf''" by (rule str_replace_abs_keeps_pdf_suffix)
    with n show False by simp
  qed
qed

text \<open>
  C2: the suffix \<open>.pdf\<close> is to be there exactly once, appended only if it is not
  there already. For an abstract-page URL that ends with \<open>.pdf\<close>, \<open>find_pdf_url\<close>
  appends it a second time. \<open>normalize_pdf_url\<close> of \<open>extract_fig1.py\<close>, which has
  the test for the suffix, returns such a URL as it is, its path not rewritten.
\<close>

theorem find_pdf_url_double_suffix:
  "find_pdf_url (YDict
      [(''title'', YStr ''T''), (''year'', YInt 2025),
       (''links'', YList
          [YDict [(''type'', YStr ''arxiv''),
                  (''url'', YStr ''https://arxiv.org/abs/2501.00001.pdf'')]])])
   = Inr (YStr ''https://arxiv.org/pdf/2501.00001.pdf.pdf'')
   \<and> normalize_pdf_url ''https://arxiv.org/abs/2501.00001.pdf''
       = ''https://arxiv.org/abs/2501.00001.pdf''"
  by (simp add: find_pdf_url_def normalize_pdf_url_def get_or_def str_replace.simps
        startswith_def endswith_def)

section \<open>The figure extractor\<close>

text \<open>
  C3, as the code has it, for the extractor of \<open>extract_fig1_yaml.py\<close> and
  \<open>extract_remaining_figs.py\<close>: among the images of the first three pages, in page and
  embedding order, those below 10000 bytes are passed over and the first one of at least
  10000 bytes is written, under the extension the document gives for it (\<open>png\<close> when it
  gives none); no other file is written and the call returns \<open>True\<close>.
\<close>

theorem extract_first_large_image:
  assumes "concat (map page_images (take 3 doc)) = small @ d # rest"
    and "\<forall>s \<in> set small. \<exists>bs. img_image s = Some bs \<and> length bs < 10000"
    and "img_image d = Some img_bytes" and "10000 \<le> length img_bytes"
    and "with_suffix out_path (''.'' @ (case img_ext d of None \<Rightarrow> ''png'' | Some e \<Rightarrow> e)) = Inr final_path"
  shows "extract_first_image_from_pdf (Document doc) out_path fs
           = (Inr True, fs(final_path \<mapsto> Image_bytes img_bytes))"
  using scan_images_first_large [OF assms(2-5), of rest fs] assms(1)
  by (simp add: extract_first_image_from_pdf_def take_min_length scan_pages_concat)

text \<open>A page with an image of 5000 bytes and then one of 20000 bytes: the second is saved.\<close>

theorem extract_first_large_image_witness:
  "extract_first_image_from_pdf
     (Document [\<lparr>page_images =
         [\<lparr>img_image = Some (replicate 5000 0), img_ext = Some ''png''\<rparr>,
          \<lparr>img_image = Some (replicate 20000 0), img_ext = Some ''jpeg''\<rparr>],
        page_content = ''p1''\<rparr>])
     [''site'', ''images'', ''publications'', ''t''] Map.empty
   = (Inr True, [[''site'', ''images'', ''publications'', ''t.jpeg'']
                   \<mapsto> Image_bytes (replicate 20000 0)])"
  using extract_first_large_image [of
     "[\<lparr>page_images =
         [\<lparr>img_image = Some (replicate 5000 0), img_ext = Some ''png''\<rparr>,
          \<lparr>img_image = Some (replicate 20000 0), img_ext = Some ''jpeg''\<rparr>],
        page_content = ''p1''\<rparr>]"
     "[\<lparr>img_image = Some (replicate 5000 0), img_ext = Some ''png''\<rparr>]"
     "\<lparr>img_image = Some (replicate 20000 0), img_ext = Some ''jpeg''\<rparr>"
     "[]" "replicate 20000 0"
     "[''site'', ''images'', ''publications'', ''t'']"
     "[''site'', ''images'', ''publications'', ''t.jpeg'']" Map.empty]
  by (simp add: with_suffix_simps)

text \<open>
  C3 as stated fails for a document whose image of 20000 bytes is on its fourth page: the
  first page is rendered instead. It fails for the extractor of \<open>extract_fig1.py\<close>, which
  has no threshold: it saves the image of 5000 bytes.
\<close>

theorem extract_beyond_window_counterexample:
  "extract_first_image_from_pdf
     (Document [\<lparr>page_images = [\<lparr>img_image = Some (replicate 5000 0), img_ext = Some ''png''\<rparr>],
                 page_content = ''p1''\<rparr>,
                \<lparr>page_images = [], page_content = ''p2''\<rparr>,
                \<lparr>page_images = [], page_content = ''p3''\<rparr>,
                \<lparr>page_images = [\<lparr>img_image = Some (replicate 20000 0), img_ext = Some ''jpeg''\<rparr>],
                 page_content = ''p4''\<rparr>])
     [''site'', ''images'', ''publications'', ''t''] Map.empty
   = (Inr True, [[''site'', ''images'', ''publications'', ''t.png''] \<mapsto>
        Pixmap_png \<lparr>page_images = [\<lparr>img_image = Some (replicate 5000 0), img_ext = Some ''png''\<rparr>],
                 page_content = ''p1''\<rparr> 150])
   \<and> extract_first_image_from_pdf_html
     (Document [\<lparr>page_images =
         [\<lparr>img_image = Some (replicate 5000 0), img_ext = Some ''png''\<rparr>,
          \<lparr>img_image = Some (replicate 20000 0), img_ext = Some ''jpeg''\<rparr>],
        page_content = ''p1''\<rparr>])
     [''site'', ''images'', ''publications'', ''t''] Map.empty
   = (Inr True, [[''site'', ''images'', ''publications'', ''t.png'']
                   \<mapsto> Image_bytes (replicate 5000 0)])"
  by (simp add: extract_first_image_from_pdf_def extract_first_image_from_pdf_html_def
        render_first_page_def with_suffix_simps)

text \<open>
  C4, as the code has it, for the extractor of \<open>extract_fig1_yaml.py\<close> and
  \<open>extract_remaining_figs.py\<close>: the result is that of the document cut to its first
  three pages, so no later page is looked at; and when the document has a page and every
  image of the first three pages is below 10000 bytes, the first page is rendered at 150
  DPI and written as a PNG file, the only file written.
\<close>

theorem extract_window:
  "extract_first_image_from_pdf (Document doc) out_path fs
     = extract_first_image_from_pdf (Document (take 3 doc)) out_path fs
   \<and> (doc \<noteq> []
      \<and> (\<forall>pg \<in> set (take 3 doc). \<forall>d \<in> set (page_images pg).
            \<exists>bs. img_image d = Some bs \<and> length bs < 10000)
      \<and> with_suffix out_path ''.png'' = Inr png_path
      \<longrightarrow> extract_first_image_from_pdf (Document doc) out_path fs
            = (Inr True, fs(png_path \<mapsto> Pixmap_png (hd doc) 150)))"
proof (intro conjI impI)
  have "render_first_page (take 3 doc) out_path fs = render_first_page doc out_path fs"
    by (cases doc) (simp_all add: render_first_page_def split: sum.splits)
  moreover have "take (min 3 (length doc)) doc = take 3 doc"
    by (simp add: min_def)
  moreover have "take (min 3 (length (take 3 doc))) (take 3 doc) = take 3 doc"
    by (simp add: min_def)
  ultimately show "extract_first_image_from_pdf (Document doc) out_path fs
     = extract_first_image_from_pdf (Document (take 3 doc)) out_path fs"
    unfolding extract_first_image_from_pdf_def by (simp only: pdf_file.case)
next
  assume a: "doc \<noteq> []
      \<and> (\<forall>pg \<in> set (take 3 doc). \<forall>d \<in> set (page_images pg).
            \<exists>bs. img_image d = Some bs \<and> length bs < 10000)
      \<and> with_suffix out_path ''.png'' = Inr png_path"
  then have "scan_images (concat (map page_images (take 3 doc))) out_path fs = None"
    by (intro scan_images_small) auto
  with a show "extract_first_image_from_pdf (Document doc) out_path fs
            = (Inr True, fs(png_path \<mapsto> Pixmap_png (hd doc) 150))"
    by (cases doc) (simp_all add: extract_first_image_from_pdf_def take_min_length
          scan_pages_concat render_first_page_def)
qed

theorem extract_window_witness:
  "extract_first_image_from_pdf
     (Document [\<lparr>page_images = [\<lparr>img_image = Some (replicate 5000 0), img_ext = Some ''png''\<rparr>],
                 page_content = ''p1''\<rparr>,
                \<lparr>page_images = [], page_content = ''p2''\<rparr>,
                \<lparr>page_images = [], page_content = ''p3''\<rparr>,
                \<lparr>page_images = [\<lparr>img_image = Some (replicate 20000 0), img_ext = Some ''jpeg''\<rparr>],
                 page_content = ''p4''\<rparr>])
     [''site'', ''images'', ''publications'', ''t''] Map.empty
   = (Inr True, [[''site'', ''images'', ''publications'', ''t.png''] \<mapsto>
        Pixmap_png \<lparr>page_images = [\<lparr>img_image = Some (replicate 5000 0), img_ext = Some ''png''\<rparr>],
                 page_content = ''p1''\<rparr> 150])"
  using extract_window [of
     "[\<lparr>page_images = [\<lparr>img_image = Some (replicate 5000 0), img_ext = Some ''png''\<rparr>],
                 page_content = ''p1''\<rparr>,
                \<lparr>page_images = [], page_content = ''p2''\<rparr>,
                \<lparr>page_images = [], page_content = ''p3''\<rparr>,
                \<lparr>page_images = [\<lparr>img_image = Some (replicate 20000 0), img_ext = Some ''jpeg''\<rparr>],
                 page_content = ''p4''\<rparr>]"
     "[''site'', ''images'', ''publications'', ''t'']" Map.empty
     "[''site'', ''images'', ''publications'', ''t.png'']", THEN conjunct2]
  by (simp add: with_suffix_simps)

text \<open>
  C4 as stated fails for a document without pages, where nothing is rendered, and for the
  extractor of \<open>extract_fig1.py\<close>, which goes through all pages: it saves an image of the
  fourth page.
\<close>

theorem extract_window_counterexample:
  "extract_first_image_from_pdf (Document [])
     [''site'', ''images'', ''publications'', ''t''] Map.empty = (Inr False, Map.empty)
   \<and> extract_first_image_from_pdf_html
     (Document [\<lparr>page_images = [], page_content = ''p1''\<rparr>,
                \<lparr>page_images = [], page_content = ''p2''\<rparr>,
                \<lparr>page_images = [], page_content = ''p3''\<rparr>,
                \<lparr>page_images = [\<lparr>img_image = Some (replicate 20000 0), img_ext = Some ''jpeg''\<rparr>],
                 page_content = ''p4''\<rparr>])
     [''site'', ''images'', ''publications'', ''t''] Map.empty
   = (Inr True, [[''site'', ''images'', ''publications'', ''t.jpeg'']
                   \<mapsto> Image_bytes (replicate 20000 0)])"
  by (simp add: extract_first_image_from_pdf_def extract_first_image_from_pdf_html_def
        render_first_page_def with_suffix_simps)

text \<open>
  C6. For a document with zero pages both extractors return \<open>False\<close> and leave the
  image files as they were.
\<close>

theorem extract_zero_pages:
  "extract_first_image_from_pdf (Document []) out_path fs = (Inr False, fs)
   \<and> extract_first_image_from_pdf_html (Document []) out_path fs = (Inr False, fs)"
  by (simp add: extract_first_image_from_pdf_def extract_first_image_from_pdf_html_def
        render_first_page_def)

section \<open>Facts about the batch loops\<close>

lemma truthy_picture_path [simp]: "truthy (YStr (''/images/publications/'' @ n))"
  by simp

lemma get_or_dict_update [simp]: "get_or (dict_update key x kvs) key dflt = x"
  by (induction kvs) (auto simp: get_or_def)

lemma record_figure_cases:
  assumes "record_figure pub target_path updated r = (pub', updated', fs')"
  shows "fs' = snd r \<and>
         ((pub' = pub \<and> updated' = updated)
          \<or> (updated' \<and> truthy (field pub' ''picture'')))"
proof -
  have "\<And>n p. py_setitem pub ''picture'' (YStr (''/images/publications/'' @ n)) = Inr p
      \<Longrightarrow> truthy (field p ''picture'')"
    by (cases pub) (auto simp: field_def)
  with assms show ?thesis
    by (auto simp: record_figure_def split: prod.splits sum.splits if_splits option.splits)
qed

lemma main_yaml_step_skip:
  "get_or d ''year'' YNull \<noteq> YInt 2025 \<or> truthy (get_or d ''picture'' YNull) \<Longrightarrow>
   main_yaml_step net root i (YDict d) st = Inr (YDict d, st)"
  by (auto simp: main_yaml_step_def Let_def)

lemma main_yaml_step_dict:
  "main_yaml_step net root i p st = Inr r \<Longrightarrow> \<exists>d. p = YDict d"
  by (cases p) (auto simp: main_yaml_step_def Let_def)

lemma main_yaml_step_cases:
  assumes "main_yaml_step net root i p (updated, fs) = Inr (p', updated', fs')"
  shows "(p' = p \<and> updated' = updated)
         \<or> (updated' \<and> field p ''year'' = YInt 2025
              \<and> \<not> truthy (field p ''picture'') \<and> truthy (field p' ''picture''))"
proof -
  from main_yaml_step_dict [OF assms] obtain d where p: "p = YDict d" by blast
  show ?thesis
  proof (cases "get_or d ''year'' YNull \<noteq> YInt 2025 \<or> truthy (get_or d ''picture'' YNull)")
    case True
    with assms p show ?thesis by (simp add: main_yaml_step_skip)
  next
    case False
    then have f: "field p ''year'' = YInt 2025" "\<not> truthy (field p ''picture'')"
      by (simp_all add: p field_def)
    from assms p False show ?thesis
      unfolding f
      by (auto simp: main_yaml_step_def Let_def field_def
          split: sum.splits if_splits yaml.splits option.splits
          dest: record_figure_cases)
  qed
qed

lemma main_yaml_loop_all_skipped:
  "\<forall>p \<in> set pubs. \<exists>d. p = YDict d
      \<and> (get_or d ''year'' YNull \<noteq> YInt 2025 \<or> truthy (get_or d ''picture'' YNull)) \<Longrightarrow>
   main_yaml_loop net root i pubs st = Inr (pubs, st)"
  by (induction pubs arbitrary: i) (auto simp: main_yaml_step_skip)

lemma main_yaml_loop_inv:
  assumes "main_yaml_loop net root i pubs (updated, fs) = Inr (pubs', updated', fs')"
  shows "length pubs' = length pubs
    \<and> (\<forall>j < length pubs. field (pubs ! j) ''year'' \<noteq> YInt 2025
                             \<or> truthy (field (pubs ! j) ''picture'')
          \<longrightarrow> pubs' ! j = pubs ! j)
    \<and> (updated' \<longrightarrow> updated
          \<or> (\<exists>j < length pubs. \<not> truthy (field (pubs ! j) ''picture'')
                \<and> truthy (field (pubs' ! j) ''picture'')))
    \<and> (\<not> updated' \<longrightarrow> pubs' = pubs)
    \<and> (updated \<longrightarrow> updated')"
  using assms
proof (induction pubs arbitrary: i updated fs pubs' updated' fs')
  case Nil
  then show ?case by simp
next
  case (Cons pub pubs)
  from Cons.prems obtain p1 u1 f1 where
    s: "main_yaml_step net root i pub (updated, fs) = Inr (p1, u1, f1)"
    by (auto split: sum.splits)
  with Cons.prems obtain ps2 u2 f2 where
    l: "main_yaml_loop net root (Suc i) pubs (u1, f1) = Inr (ps2, u2, f2)"
    by (auto split: sum.splits)
  from Cons.prems s l have r: "pubs' = p1 # ps2" "updated' = u2" "fs' = f2" by simp_all
  note ih = Cons.IH [OF l]
  note st = main_yaml_step_cases [OF s]
  have skip: "field pub ''year'' \<noteq> YInt 2025 \<or> truthy (field pub ''picture'') \<Longrightarrow> p1 = pub"
    using st by auto
  have 1: "length pubs' = length (pub # pubs)" using ih r by simp
  have 2: "\<forall>j < length (pub # pubs).
      field ((pub # pubs) ! j) ''year'' \<noteq> YInt 2025
        \<or> truthy (field ((pub # pubs) ! j) ''picture'')
          \<longrightarrow> pubs' ! j = (pub # pubs) ! j"
  proof (intro allI impI)
    fix j assume "j < length (pub # pubs)"
      and "field ((pub # pubs) ! j) ''year'' \<noteq> YInt 2025
        \<or> truthy (field ((pub # pubs) ! j) ''picture'')"
    then show "pubs' ! j = (pub # pubs) ! j"
      using ih r skip by (cases j) auto
  qed
  have 3: "updated' \<longrightarrow> updated
          \<or> (\<exists>j < length (pub # pubs). \<not> truthy (field ((pub # pubs) ! j) ''picture'')
                \<and> truthy (field (pubs' ! j) ''picture''))"
  proof
    assume "updated'"
    with r ih have "u1 \<or> (\<exists>j < length pubs. \<not> truthy (field (pubs ! j) ''picture'')
        \<and> truthy (field (ps2 ! j) ''picture''))" by simp
    then show "updated \<or> (\<exists>j < length (pub # pubs).
                \<not> truthy (field ((pub # pubs) ! j) ''picture'')
                \<and> truthy (field (pubs' ! j) ''picture''))"
    proof
      assume u1
      with st have "updated \<or> (\<not> truthy (field pub ''picture'')
            \<and> truthy (field p1 ''picture''))" by auto
      then show ?thesis
      proof
        assume "\<not> truthy (field pub ''picture'') \<and> truthy (field p1 ''picture'')"
        then have "0 < length (pub # pubs)
                \<and> \<not> truthy (field ((pub # pubs) ! 0) ''picture'')
                \<and> truthy (field (pubs' ! 0) ''picture'')" using r by simp
        then show ?thesis by blast
      qed simp
    next
      assume "\<exists>j < length pubs. \<not> truthy (field (pubs ! j) ''picture'')
          \<and> truthy (field (ps2 ! j) ''picture'')"
      then obtain j where "j < length pubs" "\<not> truthy (field (pubs ! j) ''picture'')"
        "truthy (field (ps2 ! j) ''picture'')" by blast
      then have "Suc j < length (pub # pubs)
                \<and> \<not> truthy (field ((pub # pubs) ! Suc j) ''picture'')
                \<and> truthy (field (pubs' ! Suc j) ''picture'')" using r by simp
      then show ?thesis by blast
    qed
  qed
  have 4: "\<not> updated' \<longrightarrow> pubs' = pub # pubs"
    using ih r st by auto
  have 5: "updated \<longrightarrow> updated'"
    using ih r st by auto
  from 1 2 3 4 5 show ?case by blast
qed

lemma main_remaining_step_dict:
  "main_remaining_step net root p st = Inr r \<Longrightarrow> \<exists>d. p = YDict d"
  by (cases p) (auto simp: main_remaining_step_def Let_def)

lemma main_remaining_step_skip:
  assumes "truthy (field p ''picture'')"
  shows "main_remaining_step net root p st = Inr (p, st)
         \<or> (\<exists>e. main_remaining_step net root p st = Inl e)"
proof -
  from assms obtain d where "p = YDict d" "truthy (get_or d ''picture'' YNull)"
    by (cases p) (auto simp: field_def)
  then show ?thesis
    by (auto simp: main_remaining_step_def Let_def split: yaml.splits option.splits)
qed

lemma main_remaining_step_cases:
  assumes "main_remaining_step net root p (updated, fs) = Inr (p', updated', fs')"
  shows "(p' = p \<and> updated' = updated)
         \<or> (updated' \<and> \<not> truthy (field p ''picture'') \<and> truthy (field p' ''picture''))"
proof -
  from main_remaining_step_dict [OF assms] obtain d where p: "p = YDict d" by blast
  from assms p show ?thesis
    by (auto simp: main_remaining_step_def Let_def field_def
        split: sum.splits if_splits yaml.splits option.splits
        dest: record_figure_cases)
qed

lemma main_remaining_loop_inv:
  assumes "main_remaining_loop net root pubs (updated, fs) = Inr (pubs', updated', fs')"
  shows "length pubs' = length pubs
    \<and> (\<forall>j < length pubs. truthy (field (pubs ! j) ''picture'') \<longrightarrow> pubs' ! j = pubs ! j)
    \<and> (updated' \<longrightarrow> updated
          \<or> (\<exists>j < length pubs. \<not> truthy (field (pubs ! j) ''picture'')
                \<and> truthy (field (pubs' ! j) ''picture'')))
    \<and> (\<not> updated' \<longrightarrow> pubs' = pubs)
    \<and> (updated \<longrightarrow> updated')"
  using assms
proof (induction pubs arbitrary: updated fs pubs' updated' fs')
  case Nil
  then show ?case by simp
next
  case (Cons pub pubs)
  from Cons.prems obtain p1 u1 f1 where
    s: "main_remaining_step net root pub (updated, fs) = Inr (p1, u1, f1)"
    by (auto split: sum.splits)
  with Cons.prems obtain ps2 u2 f2 where
    l: "main_remaining_loop net root pubs (u1, f1) = Inr (ps2, u2, f2)"
    by (auto split: sum.splits)
  from Cons.prems s l have r: "pubs' = p1 # ps2" "updated' = u2" "fs' = f2" by simp_all
  note ih = Cons.IH [OF l]
  note st = main_remaining_step_cases [OF s]
  have skip: "truthy (field pub ''picture'') \<Longrightarrow> p1 = pub"
    using st by auto
  have 1: "length pubs' = length (pub # pubs)" using ih r by simp
  have 2: "\<forall>j < length (pub # pubs). truthy (field ((pub # pubs) ! j) ''picture'')
          \<longrightarrow> pubs' ! j = (pub # pubs) ! j"
  proof (intro allI impI)
    fix j assume "j < length (pub # pubs)"
      and "truthy (field ((pub # pubs) ! j) ''picture'')"
    then show "pubs' ! j = (pub # pubs) ! j"
      using ih r skip by (cases j) auto
  qed
  have 3: "updated' \<longrightarrow> updated
          \<or> (\<exists>j < length (pub # pubs). \<not> truthy (field ((pub # pubs) ! j) ''picture'')
                \<and> truthy (field (pubs' ! j) ''picture''))"
  proof
    assume "updated'"
    with r ih have "u1 \<or> (\<exists>j < length pubs. \<not> truthy (field (pubs ! j) ''picture'')
        \<and> truthy (field (ps2 ! j) ''picture''))" by simp
    then show "updated \<or> (\<exists>j < length (pub # pubs).
                \<not> truthy (field ((pub # pubs) ! j) ''picture'')
                \<and> truthy (field (pubs' ! j) ''picture''))"
    proof
      assume u1
      with st have "updated \<or> (\<not> truthy (field pub ''picture'')
            \<and> truthy (field p1 ''picture''))" by auto
      then show ?thesis
      proof
        assume "\<not> truthy (field pub ''picture'') \<and> truthy (field p1 ''picture'')"
        then have "0 < length (pub # pubs)
                \<and> \<not> truthy (field ((pub # pubs) ! 0) ''picture'')
                \<and> truthy (field (pubs' ! 0) ''picture'')" using r by simp
        then show ?thesis by blast
      qed simp
    next
      assume "\<exists>j < length pubs. \<not> truthy (field (pubs ! j) ''picture'')
          \<and> truthy (field (ps2 ! j) ''picture'')"
      then obtain j where "j < length pubs" "\<not> truthy (field (pubs ! j) ''picture'')"
        "truthy (field (ps2 ! j) ''picture'')" by blast
      then have "Suc j < length (pub # pubs)
                \<and> \<not> truthy (field ((pub # pubs) ! Suc j) ''picture'')
                \<and> truthy (field (pubs' ! Suc j) ''picture'')" using r by simp
      then show ?thesis by blast
    qed
  qed
  have 4: "\<not> updated' \<longrightarrow> pubs' = pub # pubs"
    using ih r st by auto
  have 5: "updated \<longrightarrow> updated'"
    using ih r st by auto
  from 1 2 3 4 5 show ?case by blast
qed

lemma main_remaining_loop_all_skipped:
  "\<forall>p \<in> set pubs. truthy (field p ''picture'') \<Longrightarrow>
   main_remaining_loop net root pubs st = Inr (pubs, st)
   \<or> (\<exists>e. main_remaining_loop net root pubs st = Inl (e, snd st))"
proof (induction pubs)
  case Nil
  then show ?case by simp
next
  case (Cons pub pubs)
  then have "truthy (field pub ''picture'')" by simp
  from main_remaining_step_skip [OF this, of net root st] Cons show ?case
    by auto
qed

lemma main_yaml_loop_pictures:
  "\<forall>p \<in> set pubs. truthy (field p ''picture'') \<Longrightarrow>
   main_yaml_loop net root i pubs st = Inr (pubs, st)"
proof (rule main_yaml_loop_all_skipped, rule ballI)
  fix p assume "\<forall>p \<in> set pubs. truthy (field p ''picture'')" and "p \<in> set pubs"
  then have "truthy (field p ''picture'')" by simp
  then show "\<exists>d. p = YDict d
      \<and> (get_or d ''year'' YNull \<noteq> YInt 2025 \<or> truthy (get_or d ''picture'' YNull))"
    by (cases p) (auto simp: field_def)
qed

lemma main_yaml_list:
  assumes "yaml_file w = File_parsed (YList pubs)"
  shows "main_yaml net root w =
     (if pubs = [] then (Sys_exit 1, w)
      else case main_yaml_loop net root 0 pubs (False, image_files w) of
        Inl (e, fs) \<Rightarrow> (Uncaught e, w\<lparr>image_files := fs\<rparr>)
      | Inr (pubs', updated, fs) \<Rightarrow>
          if updated then
            (if yaml_writable w
             then (Returned, w\<lparr>yaml_file := File_parsed (YList pubs'),
                               yaml_writes := yaml_writes w + 1, image_files := fs\<rparr>)
             else (Uncaught OSError, w\<lparr>image_files := fs\<rparr>))
          else (Returned, w\<lparr>image_files := fs\<rparr>))"
  using assms by (auto simp: main_yaml_def split: sum.splits prod.splits)

lemma main_remaining_list:
  assumes "yaml_file w = File_parsed (YList pubs)"
  shows "main_remaining net root w =
     (case main_remaining_loop net root pubs (False, image_files w) of
        Inl (e, fs) \<Rightarrow> (Uncaught e, w\<lparr>image_files := fs\<rparr>)
      | Inr (pubs', updated, fs) \<Rightarrow>
          if updated then
            (if yaml_writable w
             then (Returned, w\<lparr>yaml_file := File_parsed (YList pubs'),
                               yaml_writes := yaml_writes w + 1, image_files := fs\<rparr>)
             else (Uncaught OSError, w\<lparr>image_files := fs\<rparr>))
          else (Returned, w\<lparr>image_files := fs\<rparr>))"
  using assms by (auto simp: main_remaining_def split: sum.splits prod.splits)

text \<open>What a run leaves in the file.\<close>

lemma main_yaml_file:
  assumes "yaml_file w = File_parsed (YList pubs)"
  shows "(yaml_file (snd (main_yaml net root w)) = File_parsed (YList pubs)
          \<and> yaml_writes (snd (main_yaml net root w)) = yaml_writes w)
       \<or> (\<exists>pubs' fs. main_yaml_loop net root 0 pubs (False, image_files w)
                        = Inr (pubs', True, fs)
            \<and> yaml_file (snd (main_yaml net root w)) = File_parsed (YList pubs'))"
  using assms
  by (auto simp: main_yaml_list split: sum.splits prod.splits)

lemma main_remaining_file:
  assumes "yaml_file w = File_parsed (YList pubs)"
  shows "(yaml_file (snd (main_remaining net root w)) = File_parsed (YList pubs)
          \<and> yaml_writes (snd (main_remaining net root w)) = yaml_writes w)
       \<or> (\<exists>pubs' fs. main_remaining_loop net root pubs (False, image_files w)
                        = Inr (pubs', True, fs)
            \<and> yaml_file (snd (main_remaining net root w)) = File_parsed (YList pubs'))"
  using assms
  by (auto simp: main_remaining_list split: sum.splits prod.splits)













lemma with_suffix_Inr:
  assumes "with_suffix t suf = Inr f"
  shows "path_name t \<noteq> [] \<and>
         f = butlast t @ [take (length (path_name t) - length (path_suffix t)) (path_name t) @ suf]"
  using assms by (auto simp: with_suffix_def Let_def split: if_splits)

lemma with_suffix_ext:
  assumes "path_name t \<noteq> []" and "x \<in> {''.png'', ''.jpg'', ''.jpeg''}"
  shows "with_suffix t x
     = Inr (butlast t @ [take (length (path_name t) - length (path_suffix t)) (path_name t) @ x])"
  using assms by (auto simp: with_suffix_def Let_def startswith_def)

lemma record_figure_fresh:
  assumes ws: "with_suffix t (''.'' @ ext) = Inr final"
    and none: "\<forall>x \<in> set [''.png'', ''.jpg'', ''.jpeg'']. \<forall>f. with_suffix t x = Inr f \<longrightarrow> fs f = None"
  shows "record_figure (YDict d) t updated (Inr True, fs(final \<mapsto> c))
     = (if ext \<in> {''png'', ''jpg'', ''jpeg''}
        then (YDict (dict_update ''picture''
                       (YStr (''/images/publications/'' @ path_name final)) d), True,
              fs(final \<mapsto> c))
        else (YDict d, updated, fs(final \<mapsto> c)))"
proof -
  let ?stem = "take (length (path_name t) - length (path_suffix t)) (path_name t)"
  let ?f = "\<lambda>x. butlast t @ [?stem @ x]"
  from with_suffix_Inr [OF ws] have ne: "path_name t \<noteq> []"
    and final: "final = ?f (''.'' @ ext)" by simp_all
  have w: "with_suffix t ''.png'' = Inr (?f ''.png'')"
    "with_suffix t ''.jpg'' = Inr (?f ''.jpg'')"
    "with_suffix t ''.jpeg'' = Inr (?f ''.jpeg'')"
    using ne by (simp_all add: with_suffix_ext)
  with none have n: "fs (?f ''.png'') = None" "fs (?f ''.jpg'') = None" "fs (?f ''.jpeg'') = None"
    by simp_all
  consider "ext = ''png''" | "ext = ''jpg''" | "ext = ''jpeg''"
    | "ext \<notin> {''png'', ''jpg'', ''jpeg''}" by blast
  then show ?thesis
  proof cases
    case 1
    then have "first_existing t [''.png'', ''.jpg'', ''.jpeg''] (fs(final \<mapsto> c)) = Inr (Some final)"
      using w final by simp
    with 1 show ?thesis by (simp add: record_figure_def)
  next
    case 2
    then have "first_existing t [''.png'', ''.jpg'', ''.jpeg''] (fs(final \<mapsto> c)) = Inr (Some final)"
      using w n final by simp
    with 2 show ?thesis by (simp add: record_figure_def)
  next
    case 3
    then have "first_existing t [''.png'', ''.jpg'', ''.jpeg''] (fs(final \<mapsto> c)) = Inr (Some final)"
      using w n final by simp
    with 3 show ?thesis by (simp add: record_figure_def)
  next
    case 4
    then have "final \<noteq> ?f ''.png''" "final \<noteq> ?f ''.jpg''" "final \<noteq> ?f ''.jpeg''"
      by (auto simp: final)
    then have "first_existing t [''.png'', ''.jpg'', ''.jpeg''] (fs(final \<mapsto> c)) = Inr None"
      using w n by (simp add: fun_upd_def)
    with 4 show ?thesis by (simp add: record_figure_def)
  qed
qed

lemma slug_eval:
  "slugify ''Eval'' = ''eval''" "slugify ''Eval!'' = ''eval''"
  "slugify ''Alpha'' = ''alpha''" "slugify ''Beta'' = ''beta''"
  by code_simp+

lemma with_suffix_eval:
  "with_suffix [''site'', ''images'', ''publications'', ''eval''] ''.png'' = Inr [''site'', ''images'', ''publications'', ''eval.png'']"
  "with_suffix [''site'', ''images'', ''publications'', ''eval''] ''.jpg'' = Inr [''site'', ''images'', ''publications'', ''eval.jpg'']"
  "with_suffix [''site'', ''images'', ''publications'', ''eval''] ''.jpeg'' = Inr [''site'', ''images'', ''publications'', ''eval.jpeg'']"
  "with_suffix [''site'', ''images'', ''publications'', ''eval''] ''.jpx'' = Inr [''site'', ''images'', ''publications'', ''eval.jpx'']"
  "with_suffix [''site'', ''images'', ''publications'', ''beta''] ''.png'' = Inr [''site'', ''images'', ''publications'', ''beta.png'']"
  "with_suffix [''site'', ''images'', ''publications'', ''beta''] ''.jpg'' = Inr [''site'', ''images'', ''publications'', ''beta.jpg'']"
  "with_suffix [''site'', ''images'', ''publications'', ''beta''] ''.jpeg'' = Inr [''site'', ''images'', ''publications'', ''beta.jpeg'']"
  by (simp_all add: with_suffix_def path_name_def path_suffix_def rfind_def startswith_def)

section \<open>The batch jobs: records that are skipped\<close>

text \<open>
  C9. A run of \<open>extract_fig1_yaml.py\<close> leaves every record whose year is not 2025 (or
  that has no year) as it is, whatever its links and its picture, also when the run ends
  with an exception; the step of the loop for such a record changes neither the record nor
  the flag nor the image files.
\<close>

theorem main_yaml_other_years_unchanged:
  assumes "yaml_file w = File_parsed (YList pubs)"
  shows "(\<exists>pubs'. yaml_file (snd (main_yaml net root w)) = File_parsed (YList pubs')
            \<and> length pubs' = length pubs
            \<and> (\<forall>j < length pubs. field (pubs ! j) ''year'' \<noteq> YInt 2025
                  \<longrightarrow> pubs' ! j = pubs ! j))
       \<and> (\<forall>i d st. get_or d ''year'' YNull \<noteq> YInt 2025
            \<longrightarrow> main_yaml_step net root i (YDict d) st = Inr (YDict d, st))"
proof
  from main_yaml_file [OF assms, of net root]
  show "\<exists>pubs'. yaml_file (snd (main_yaml net root w)) = File_parsed (YList pubs')
            \<and> length pubs' = length pubs
            \<and> (\<forall>j < length pubs. field (pubs ! j) ''year'' \<noteq> YInt 2025
                  \<longrightarrow> pubs' ! j = pubs ! j)"
  proof
    assume "yaml_file (snd (main_yaml net root w)) = File_parsed (YList pubs)
          \<and> yaml_writes (snd (main_yaml net root w)) = yaml_writes w"
    then show ?thesis by simp
  next
    assume "\<exists>pubs' fs. main_yaml_loop net root 0 pubs (False, image_files w)
                        = Inr (pubs', True, fs)
            \<and> yaml_file (snd (main_yaml net root w)) = File_parsed (YList pubs')"
    then obtain pubs' fs where
      l: "main_yaml_loop net root 0 pubs (False, image_files w) = Inr (pubs', True, fs)"
      and y: "yaml_file (snd (main_yaml net root w)) = File_parsed (YList pubs')" by blast
    from main_yaml_loop_inv [OF l] y show ?thesis by blast
  qed
next
  show "\<forall>i d st. get_or d ''year'' YNull \<noteq> YInt 2025
            \<longrightarrow> main_yaml_step net root i (YDict d) st = Inr (YDict d, st)"
    by (simp add: main_yaml_step_skip)
qed

theorem main_yaml_other_years_unchanged_witness:
  "\<exists>pubs'. yaml_file (snd (main_yaml (map_of [(''https://example.org/a.pdf'', Document [\<lparr>page_images = [\<lparr>img_image = Some (replicate 20000 0), img_ext = Some ''jpx''\<rparr>], page_content = ''a''\<rparr>])]) [''site'']
       \<lparr>yaml_file = File_parsed (YList [YDict
        [(''title'', YStr ''Eval''),
         (''year'', YInt 2024),
         (''links'', YList [YDict [(''type'', YStr ''pdf''), (''url'', YStr ''https://example.org/a.pdf'')]])]]), yaml_writable = True,
      yaml_writes = 0, image_files = Map.empty\<rparr>)) = File_parsed (YList pubs')
     \<and> pubs' ! 0 = YDict
        [(''title'', YStr ''Eval''),
         (''year'', YInt 2024),
         (''links'', YList [YDict [(''type'', YStr ''pdf''), (''url'', YStr ''https://example.org/a.pdf'')]])]"
  using main_yaml_other_years_unchanged [of
     "\<lparr>yaml_file = File_parsed (YList [YDict
        [(''title'', YStr ''Eval''),
         (''year'', YInt 2024),
         (''links'', YList [YDict [(''type'', YStr ''pdf''), (''url'', YStr ''https://example.org/a.pdf'')]])]]), yaml_writable = True,
      yaml_writes = 0, image_files = Map.empty\<rparr>"
     "[YDict
        [(''title'', YStr ''Eval''),
         (''year'', YInt 2024),
         (''links'', YList [YDict [(''type'', YStr ''pdf''), (''url'', YStr ''https://example.org/a.pdf'')]])]]"
     "(map_of [(''https://example.org/a.pdf'', Document [\<lparr>page_images = [\<lparr>img_image = Some (replicate 20000 0), img_ext = Some ''jpx''\<rparr>], page_content = ''a''\<rparr>])])" "[''site'']"]
  by (auto simp: field_def get_or_def)

text \<open>
  For \<open>extract_fig1_yaml.py\<close> and \<open>extract_remaining_figs.py\<close>: a record whose
  picture is set is left as it is by a run; a run writes \<open>publications.yml\<close> only if a
  record without a picture has one after it; a run over records that all have a picture
  writes nothing and changes nothing.
\<close>

lemma batch_skips_records_with_picture:
  assumes "run = main_yaml net root \<or> run = main_remaining net root"
    and "yaml_file w = File_parsed (YList pubs)"
  shows "\<exists>pubs'. yaml_file (snd (run w)) = File_parsed (YList pubs')
     \<and> length pubs' = length pubs
     \<and> (\<forall>j < length pubs. truthy (field (pubs ! j) ''picture'') \<longrightarrow> pubs' ! j = pubs ! j)
     \<and> (yaml_writes (snd (run w)) \<noteq> yaml_writes w \<longrightarrow>
          (\<exists>j < length pubs. \<not> truthy (field (pubs ! j) ''picture'')
              \<and> truthy (field (pubs' ! j) ''picture'')))
     \<and> ((\<forall>p \<in> set pubs. truthy (field p ''picture'')) \<longrightarrow> snd (run w) = w)"
  using assms(1)
proof
  assume run: "run = main_yaml net root"
  have all: "(\<forall>p \<in> set pubs. truthy (field p ''picture'')) \<longrightarrow> snd (run w) = w"
  proof
    assume "\<forall>p \<in> set pubs. truthy (field p ''picture'')"
    then have "main_yaml_loop net root 0 pubs (False, image_files w)
        = Inr (pubs, False, image_files w)"
      by (rule main_yaml_loop_pictures)
    then show "snd (run w) = w"
      using assms(2) run by (simp add: main_yaml_list)
  qed
  from main_yaml_file [OF assms(2), of net root] show ?thesis
  proof
    assume "yaml_file (snd (main_yaml net root w)) = File_parsed (YList pubs)
          \<and> yaml_writes (snd (main_yaml net root w)) = yaml_writes w"
    with run all show ?thesis by simp
  next
    assume "\<exists>pubs' fs. main_yaml_loop net root 0 pubs (False, image_files w)
                        = Inr (pubs', True, fs)
            \<and> yaml_file (snd (main_yaml net root w)) = File_parsed (YList pubs')"
    then obtain pubs' fs where
      l: "main_yaml_loop net root 0 pubs (False, image_files w) = Inr (pubs', True, fs)"
      and y: "yaml_file (snd (main_yaml net root w)) = File_parsed (YList pubs')" by blast
    from main_yaml_loop_inv [OF l] y run all show ?thesis by (simp; blast?)
  qed
next
  assume run: "run = main_remaining net root"
  have all: "(\<forall>p \<in> set pubs. truthy (field p ''picture'')) \<longrightarrow> snd (run w) = w"
  proof
    assume "\<forall>p \<in> set pubs. truthy (field p ''picture'')"
    from main_remaining_loop_all_skipped [OF this, of net root "(False, image_files w)"]
    show "snd (run w) = w"
      using assms(2) run by (auto simp: main_remaining_list)
  qed
  from main_remaining_file [OF assms(2), of net root] show ?thesis
  proof
    assume "yaml_file (snd (main_remaining net root w)) = File_parsed (YList pubs)
          \<and> yaml_writes (snd (main_remaining net root w)) = yaml_writes w"
    with run all show ?thesis by simp
  next
    assume "\<exists>pubs' fs. main_remaining_loop net root pubs (False, image_files w)
                        = Inr (pubs', True, fs)
            \<and> yaml_file (snd (main_remaining net root w)) = File_parsed (YList pubs')"
    then obtain pubs' fs where
      l: "main_remaining_loop net root pubs (False, image_files w) = Inr (pubs', True, fs)"
      and y: "yaml_file (snd (main_remaining net root w)) = File_parsed (YList pubs')"
      by blast
    from main_remaining_loop_inv [OF l] y run all show ?thesis by (simp; blast?)
  qed
qed

text \<open>
  C5: a second run, with the data source as the first run left it, is to write nothing.
  Here it does. Two records have titles with the same slug. The image of the first is saved
  as \<open>eval.jpx\<close>, which the probe for \<open>.png\<close>, \<open>.jpg\<close> and \<open>.jpeg\<close> does not
  find; the second leaves \<open>eval.png\<close>. The first run writes the file once and leaves
  the first record without a picture. The second run, with the same network, tries the
  first record again, takes the other record's \<open>eval.png\<close> for the file it has just
  created, and writes the file a second time.
\<close>

theorem second_run_writes_again:
  "yaml_writes (snd (main_yaml
    (map_of [(''https://example.org/a.pdf'', Document [\<lparr>page_images = [\<lparr>img_image = Some (replicate 20000 0), img_ext = Some ''jpx''\<rparr>], page_content = ''a''\<rparr>]),
      (''https://example.org/b.pdf'', Document [\<lparr>page_images = [\<lparr>img_image = Some (replicate 20000 0), img_ext = Some ''png''\<rparr>], page_content = ''b''\<rparr>])])
    [''site'']
    \<lparr>yaml_file = File_parsed (YList [YDict
        [(''title'', YStr ''Eval''),
         (''year'', YInt 2025),
         (''links'', YList [YDict [(''type'', YStr ''pdf''), (''url'', YStr ''https://example.org/a.pdf'')]])],
       YDict
        [(''title'', YStr ''Eval!''),
         (''year'', YInt 2025),
         (''links'', YList [YDict [(''type'', YStr ''pdf''), (''url'', YStr ''https://example.org/b.pdf'')]])]]), yaml_writable = True,
      yaml_writes = 0, image_files = Map.empty\<rparr>)) = 1
   \<and> yaml_file (snd (main_yaml
    (map_of [(''https://example.org/a.pdf'', Document [\<lparr>page_images = [\<lparr>img_image = Some (replicate 20000 0), img_ext = Some ''jpx''\<rparr>], page_content = ''a''\<rparr>]),
      (''https://example.org/b.pdf'', Document [\<lparr>page_images = [\<lparr>img_image = Some (replicate 20000 0), img_ext = Some ''png''\<rparr>], page_content = ''b''\<rparr>])])
    [''site'']
    \<lparr>yaml_file = File_parsed (YList [YDict
        [(''title'', YStr ''Eval''),
         (''year'', YInt 2025),
         (''links'', YList [YDict [(''type'', YStr ''pdf''), (''url'', YStr ''https://example.org/a.pdf'')]])],
       YDict
        [(''title'', YStr ''Eval!''),
         (''year'', YInt 2025),
         (''links'', YList [YDict [(''type'', YStr ''pdf''), (''url'', YStr ''https://example.org/b.pdf'')]])]]), yaml_writable = True,
      yaml_writes = 0, image_files = Map.empty\<rparr>))
     = File_parsed (YList
       [YDict
        [(''title'', YStr ''Eval''),
         (''year'', YInt 2025),
         (''links'', YList [YDict [(''type'', YStr ''pdf''), (''url'', YStr ''https://example.org/a.pdf'')]])],
        YDict
        [(''title'', YStr ''Eval!''),
         (''year'', YInt 2025),
         (''links'', YList [YDict [(''type'', YStr ''pdf''), (''url'', YStr ''https://example.org/b.pdf'')]]),
         (''picture'', YStr ''/images/publications/eval.png'')]])
   \<and> yaml_writes (snd (main_yaml
    (map_of [(''https://example.org/a.pdf'', Document [\<lparr>page_images = [\<lparr>img_image = Some (replicate 20000 0), img_ext = Some ''jpx''\<rparr>], page_content = ''a''\<rparr>]),
      (''https://example.org/b.pdf'', Document [\<lparr>page_images = [\<lparr>img_image = Some (replicate 20000 0), img_ext = Some ''png''\<rparr>], page_content = ''b''\<rparr>])])
    [''site'']
    (snd (main_yaml
    (map_of [(''https://example.org/a.pdf'', Document [\<lparr>page_images = [\<lparr>img_image = Some (replicate 20000 0), img_ext = Some ''jpx''\<rparr>], page_content = ''a''\<rparr>]),
      (''https://example.org/b.pdf'', Document [\<lparr>page_images = [\<lparr>img_image = Some (replicate 20000 0), img_ext = Some ''png''\<rparr>], page_content = ''b''\<rparr>])])
    [''site'']
    \<lparr>yaml_file = File_parsed (YList [YDict
        [(''title'', YStr ''Eval''),
         (''year'', YInt 2025),
         (''links'', YList [YDict [(''type'', YStr ''pdf''), (''url'', YStr ''https://example.org/a.pdf'')]])],
       YDict
        [(''title'', YStr ''Eval!''),
         (''year'', YInt 2025),
         (''links'', YList [YDict [(''type'', YStr ''pdf''), (''url'', YStr ''https://example.org/b.pdf'')]])]]), yaml_writable = True,
      yaml_writes = 0, image_files = Map.empty\<rparr>)))) = 2"
  by (simp add: main_yaml_def main_yaml_step_def record_figure_def find_pdf_url_def
      get_or_def download_file_def extract_first_image_from_pdf_def render_first_page_def
      with_suffix_eval path_name_def path_div_def IMAGES_DIR_def slug_eval Let_def)

section \<open>The batch jobs: failures and the exit status\<close>






section \<open>The batch jobs: the picture field\<close>

text \<open>
  For \<open>extract_fig1_yaml.py\<close> and \<open>extract_remaining_figs.py\<close>, when none of the
  files with the extensions \<open>.png\<close>, \<open>.jpg\<close> and \<open>.jpeg\<close> is there before the
  extraction and an embedded image is saved: the picture is set, to the saved file, exactly
  when the image's extension is \<open>png\<close>, \<open>jpg\<close> or \<open>jpeg\<close>; with any other
  extension the file is on disk, the record and the flag are as before.
\<close>

lemma picture_set_by_extension:
  assumes "\<not> truthy (get_or d ''picture'' YNull)"
    and "net pdf_url = Some (Document doc)"
    and "concat (map page_images (take 3 doc)) = small @ im # rest"
    and "\<forall>s \<in> set small. \<exists>bs. img_image s = Some bs \<and> length bs < 10000"
    and "img_image im = Some img_bytes" and "10000 \<le> length img_bytes"
    and "ext = (case img_ext im of None \<Rightarrow> ''png'' | Some e \<Rightarrow> e)"
    and "with_suffix target_path (''.'' @ ext) = Inr final_path"
    and "\<forall>x \<in> set [''.png'', ''.jpg'', ''.jpeg''].
           \<forall>f. with_suffix target_path x = Inr f \<longrightarrow> fs f = None"
    and "result = (if ext \<in> {''png'', ''jpg'', ''jpeg''}
        then (YDict (dict_update ''picture''
                       (YStr (''/images/publications/'' @ path_name final_path)) d), True,
              fs(final_path \<mapsto> Image_bytes img_bytes))
        else (YDict d, updated, fs(final_path \<mapsto> Image_bytes img_bytes)))"
  shows "(get_or d ''year'' YNull = YInt 2025
          \<and> find_pdf_url (YDict d) = Inr (YStr pdf_url) \<and> pdf_url \<noteq> []
          \<and> get_or d ''title'' (YStr (''paper-'' @ str_of_nat i)) = YStr t
          \<and> target_path = path_div (IMAGES_DIR root) (slugify t)
          \<longrightarrow> main_yaml_step net root i (YDict d) (updated, fs) = Inr result)
       \<and> (get_or d ''title'' (YStr []) = YStr t
          \<and> map_of manual_pdfs t = Some pdf_url
          \<and> target_path = path_div (IMAGES_DIR root) (slugify t)
          \<longrightarrow> main_remaining_step net root (YDict d) (updated, fs) = Inr result)"
proof -
  have ex: "extract_first_image_from_pdf (Document doc) target_path fs
           = (Inr True, fs(final_path \<mapsto> Image_bytes img_bytes))"
    using scan_images_first_large [OF assms(4,5,6), of target_path final_path rest fs]
      assms(3,7,8)
    by (simp add: extract_first_image_from_pdf_def take_min_length scan_pages_concat)
  have rf: "record_figure (YDict d) target_path updated
              (Inr True, fs(final_path \<mapsto> Image_bytes img_bytes)) = result"
    using record_figure_fresh [OF assms(8,9)] assms(10) by simp
  show ?thesis
  proof (intro conjI impI)
    assume "get_or d ''year'' YNull = YInt 2025
          \<and> find_pdf_url (YDict d) = Inr (YStr pdf_url) \<and> pdf_url \<noteq> []
          \<and> get_or d ''title'' (YStr (''paper-'' @ str_of_nat i)) = YStr t
          \<and> target_path = path_div (IMAGES_DIR root) (slugify t)"
    with assms(1,2) ex rf show "main_yaml_step net root i (YDict d) (updated, fs) = Inr result"
      by (simp add: main_yaml_step_def Let_def download_file_def)
  next
    assume "get_or d ''title'' (YStr []) = YStr t
          \<and> map_of manual_pdfs t = Some pdf_url
          \<and> target_path = path_div (IMAGES_DIR root) (slugify t)"
    with assms(1,2) ex rf show "main_remaining_step net root (YDict d) (updated, fs) = Inr result"
      by (simp add: main_remaining_step_def Let_def)
  qed
qed

text \<open>
  C10: when the image is saved under an extension other than \<open>png\<close>, \<open>jpg\<close> and
  \<open>jpeg\<close>, the record and the flag are to stay as they are. With \<open>eval.png\<close> on disk
  before the run they do not: the image is saved as \<open>eval.jpx\<close>, the probe takes the old
  \<open>eval.png\<close> for the file just created, the picture is set to it and the flag is set.
\<close>

theorem stale_file_sets_picture:
  "main_yaml_step (map_of [(''https://example.org/a.pdf'', Document [\<lparr>page_images = [\<lparr>img_image = Some (replicate 20000 0), img_ext = Some ''jpx''\<rparr>], page_content = ''a''\<rparr>])]) [''site''] 0
     (YDict
        [(''title'', YStr ''Eval''),
         (''year'', YInt 2025),
         (''links'', YList [YDict [(''type'', YStr ''pdf''), (''url'', YStr ''https://example.org/a.pdf'')]])])
     (False, [[''site'', ''images'', ''publications'', ''eval.png''] \<mapsto> Image_bytes []])
   = Inr (YDict
        [(''title'', YStr ''Eval''),
         (''year'', YInt 2025),
         (''links'', YList [YDict [(''type'', YStr ''pdf''), (''url'', YStr ''https://example.org/a.pdf'')]]),
         (''picture'', YStr ''/images/publications/eval.png'')], True,
       [[''site'', ''images'', ''publications'', ''eval.png''] \<mapsto> Image_bytes [],
        [''site'', ''images'', ''publications'', ''eval.jpx''] \<mapsto> Image_bytes (replicate 20000 0)])"
  by (simp add: main_yaml_def main_yaml_step_def record_figure_def find_pdf_url_def
      get_or_def download_file_def extract_first_image_from_pdf_def render_first_page_def
      with_suffix_eval path_name_def path_div_def IMAGES_DIR_def slug_eval Let_def)

end
